theory Spec2Isabelle
  imports Main
begin

section \<open>JavaScript values\<close>

text \<open>
  The hooks and the auth provider handle plain JavaScript data: the user payload given to
  \<open>onLogIn\<close>, the value \<open>JSON.parse\<close> returns, the decoded body of a response.
  \<open>jsval\<close> holds \<open>undefined\<close> and the JSON values. A number \<open>JNum m e\<close> stands for
  the decimal \<open>m * 10 ^ e\<close>. Of the rounding to binary64 the model has the underflow to
  zero only: it is exact for decimals of at most 15 significant digits below \<open>2 ^ 1024\<close>
  in magnitude, and it keeps a literal that \<open>JSON.parse\<close> would round, or read as
  \<open>Infinity\<close>, as the decimal written. A string is the sequence of its UTF-16 code units
  in generalised UTF-8: one to three bytes for a code unit, a lone surrogate included,
  and four bytes for a surrogate pair. An object is the list of its own properties in
  enumeration order.
\<close>

datatype jsval =
    JUndefined
  | JNull
  | JBool bool
  | JNum int int
  | JStr string
  | JArr "jsval list"
  | JObj "(string \<times> jsval) list"

text \<open>\<open>ToBoolean\<close>, as used by \<open>!!data\<close>, \<open>body ? ... : null\<close> and \<open>raw ? ... : null\<close>.\<close>

fun truthy :: "jsval \<Rightarrow> bool" where
  "truthy JUndefined = False"
| "truthy JNull = False"
| "truthy (JBool b) = b"
| "truthy (JNum m e) = (m \<noteq> 0)"
| "truthy (JStr s) = (s \<noteq> [])"
| "truthy (JArr xs) = True"
| "truthy (JObj kvs) = True"

text \<open>An exception value: its \<open>name\<close> and its \<open>message\<close>.\<close>

datatype js_error = JsError (err_name: string) (err_message: string)

subsection \<open>Characters and digits\<close>

definition code :: "char \<Rightarrow> nat" where
  "code c = of_char c"

definition digit_char :: "nat \<Rightarrow> char" where
  "digit_char d = ''0123456789abcdef'' ! d"

fun string_of_nat :: "nat \<Rightarrow> string" where
  "string_of_nat n =
     (if n < 10 then [digit_char n] else string_of_nat (n div 10) @ [digit_char (n mod 10)])"

definition is_digit :: "char \<Rightarrow> bool" where
  "is_digit c = (48 \<le> code c \<and> code c \<le> 57)"

definition digit_val :: "char \<Rightarrow> nat" where
  "digit_val c = code c - 48"

definition nat_of_digits :: "string \<Rightarrow> nat" where
  "nat_of_digits ds = foldl (\<lambda>a c. 10 * a + digit_val c) 0 ds"

definition strip_zeros :: "string \<Rightarrow> string" where
  "strip_zeros ds = rev (dropWhile (\<lambda>c. c = CHR ''0'') (rev ds))"

subsection \<open>Objects\<close>

text \<open>
  Own properties enumerate array-index keys first, in ascending order, then the other
  keys in the order they were created. \<open>obj_set kvs k v\<close> is the object after
  \<open>kvs[k] = v\<close>; \<open>spread base more\<close> is \<open>{...base, ...more}\<close>.
\<close>

definition is_array_index :: "string \<Rightarrow> bool" where
  "is_array_index k =
     (k \<noteq> [] \<and> list_all is_digit k \<and> (k = ''0'' \<or> hd k \<noteq> CHR ''0'')
      \<and> nat_of_digits k < 4294967295)"

fun insert_index :: "(string \<times> 'v) list \<Rightarrow> string \<Rightarrow> 'v \<Rightarrow> (string \<times> 'v) list" where
  "insert_index [] k v = [(k, v)]"
| "insert_index ((k', v') # kvs) k v =
     (if is_array_index k' \<and> nat_of_digits k' < nat_of_digits k
      then (k', v') # insert_index kvs k v
      else (k, v) # (k', v') # kvs)"

definition obj_set :: "(string \<times> 'v) list \<Rightarrow> string \<Rightarrow> 'v \<Rightarrow> (string \<times> 'v) list" where
  "obj_set kvs k v =
     (if k \<in> fst ` set kvs then map (\<lambda>kv. if fst kv = k then (k, v) else kv) kvs
      else if is_array_index k then insert_index kvs k v
      else kvs @ [(k, v)])"

definition spread :: "(string \<times> 'v) list \<Rightarrow> (string \<times> 'v) list \<Rightarrow> (string \<times> 'v) list" where
  "spread base more = foldl (\<lambda>acc kv. obj_set acc (fst kv) (snd kv)) base more"

subsection \<open>\<open>JSON.stringify\<close>\<close>

text \<open>
  \<open>Number_toString\<close> is \<open>Number::toString\<close> in radix 10 on the decimal digits of the
  number; \<open>QuoteJSONString\<close> escapes the quote, the backslash and the control characters
  (a lone surrogate, which \<open>JSON.stringify\<close> writes as a \<open>\u\<close> escape, is left as its
  bytes).
  \<open>JSON_stringify\<close> returns \<open>None\<close> where \<open>JSON.stringify\<close> returns \<open>undefined\<close>.
\<close>

definition Number_toString :: "int \<Rightarrow> int \<Rightarrow> string" where
  "Number_toString m e =
     (if m = 0 then ''0''
      else
        let all = string_of_nat (nat \<bar>m\<bar>);
            ds = strip_zeros all;
            k = int (length ds);
            n = e + int (length all);
            sgn = (if m < 0 then ''-'' else '''');
            ex = (if n - 1 < 0 then ''-'' else ''+'') @ string_of_nat (nat \<bar>n - 1\<bar>)
        in sgn @
          (if k \<le> n \<and> n \<le> 21 then ds @ replicate (nat (n - k)) CHR ''0''
           else if 0 < n \<and> n \<le> 21 then take (nat n) ds @ ''.'' @ drop (nat n) ds
           else if - 6 < n \<and> n \<le> 0 then ''0.'' @ replicate (nat (- n)) CHR ''0'' @ ds
           else if k = 1 then ds @ ''e'' @ ex
           else take 1 ds @ ''.'' @ drop 1 ds @ ''e'' @ ex))"

definition QuoteJSONChar :: "char \<Rightarrow> string" where
  "QuoteJSONChar c =
     (if c = CHR ''\"'' then [CHR 0x5C, CHR ''\"'']
      else if c = CHR 0x5C then [CHR 0x5C, CHR 0x5C]
      else if c = CHR 0x08 then [CHR 0x5C, CHR ''b'']
      else if c = CHR 0x0C then [CHR 0x5C, CHR ''f'']
      else if c = CHR 0x0A then [CHR 0x5C, CHR ''n'']
      else if c = CHR 0x0D then [CHR 0x5C, CHR ''r'']
      else if c = CHR 0x09 then [CHR 0x5C, CHR ''t'']
      else if code c < 32
        then [CHR 0x5C, CHR ''u'', CHR ''0'', CHR ''0'',
              digit_char (code c div 16), digit_char (code c mod 16)]
      else [c])"

definition QuoteJSONString :: "string \<Rightarrow> string" where
  "QuoteJSONString s = [CHR ''\"''] @ concat (map QuoteJSONChar s) @ [CHR ''\"'']"

fun join :: "string \<Rightarrow> string list \<Rightarrow> string" where
  "join sep [] = []"
| "join sep [x] = x"
| "join sep (x # y # ys) = x @ sep @ join sep (y # ys)"

fun JSON_stringify :: "jsval \<Rightarrow> string option" where
  "JSON_stringify JUndefined = None"
| "JSON_stringify JNull = Some ''null''"
| "JSON_stringify (JBool b) = Some (if b then ''true'' else ''false'')"
| "JSON_stringify (JNum m e) = Some (Number_toString m e)"
| "JSON_stringify (JStr s) = Some (QuoteJSONString s)"
| "JSON_stringify (JArr xs) =
     Some (''['' @ join '',''
        (map (\<lambda>x. case JSON_stringify x of None \<Rightarrow> ''null'' | Some s \<Rightarrow> s) xs) @ '']'')"
| "JSON_stringify (JObj kvs) =
     Some (''{'' @ join '',''
        (concat (map (\<lambda>kv. case JSON_stringify (snd kv) of
                              None \<Rightarrow> []
                            | Some s \<Rightarrow> [QuoteJSONString (fst kv) @ '':'' @ s]) kvs)) @ ''}'')"


subsection \<open>\<open>JSON.parse\<close>\<close>

text \<open>
  A recursive-descent reader of the JSON grammar. \<open>JSON_parse\<close> returns \<open>None\<close> where
  \<open>JSON.parse\<close> throws a \<open>SyntaxError\<close>. The reader of values carries fuel, one unit
  per nested call; \<open>JSON_parse\<close> gives it \<open>2 * length s + 2\<close>, which is never used up
  (lemma \<open>JSON_parse_fuel\<close>). A \<open>\u\<close> escape is stored as the bytes of its code unit
  (\<open>append_unit\<close>).
\<close>

definition is_ws :: "char \<Rightarrow> bool" where
  "is_ws c = (c = CHR '' '' \<or> c = CHR 0x09 \<or> c = CHR 0x0A \<or> c = CHR 0x0D)"

definition skip_ws :: "string \<Rightarrow> string" where
  "skip_ws cs = dropWhile is_ws cs"

definition hex_val :: "char \<Rightarrow> nat option" where
  "hex_val c =
     (if 48 \<le> code c \<and> code c \<le> 57 then Some (code c - 48)
      else if 97 \<le> code c \<and> code c \<le> 102 then Some (code c - 87)
      else if 65 \<le> code c \<and> code c \<le> 70 then Some (code c - 55)
      else None)"

definition utf8 :: "nat \<Rightarrow> string" where
  "utf8 u =
     (if u < 128 then [char_of u]
      else if u < 2048 then [char_of (192 + u div 64), char_of (128 + u mod 64)]
      else if u < 65536 then
        [char_of (224 + u div 4096), char_of (128 + (u div 64) mod 64),
         char_of (128 + u mod 64)]
      else [char_of (240 + u div 262144), char_of (128 + (u div 4096) mod 64),
            char_of (128 + (u div 64) mod 64), char_of (128 + u mod 64)])"

text \<open>
  The code unit \<open>u\<close> of a \<open>\u\<close> escape appended to the string read so far. A low
  surrogate (\<open>0xDC00\<close> to \<open>0xDFFF\<close>) that follows a high surrogate (\<open>0xD800\<close> to
  \<open>0xDBFF\<close>, the bytes \<open>0xED\<close>, \<open>0xA0\<close> to \<open>0xAF\<close>, \<open>0x80\<close> to \<open>0xBF\<close>) makes one
  code point with it, of four bytes; every other unit is encoded alone.
\<close>

definition append_unit :: "string \<Rightarrow> nat \<Rightarrow> string" where
  "append_unit acc u =
     (case rev acc of
        b3 # b2 # b1 # r \<Rightarrow>
          if code b1 = 237 \<and> 160 \<le> code b2 \<and> code b2 \<le> 175
             \<and> 128 \<le> code b3 \<and> code b3 \<le> 191 \<and> 56320 \<le> u \<and> u \<le> 57343
          then rev r @ utf8 (65536 + ((code b2 - 160) * 64 + (code b3 - 128)) * 1024
                               + (u - 56320))
          else acc @ utf8 u
      | _ \<Rightarrow> acc @ utf8 u)"

definition unescape :: "char \<Rightarrow> char option" where
  "unescape e =
     (if e = CHR ''\"'' then Some CHR ''\"''
      else if e = CHR 0x5C then Some CHR 0x5C
      else if e = CHR ''/'' then Some CHR ''/''
      else if e = CHR ''b'' then Some CHR 0x08
      else if e = CHR ''f'' then Some CHR 0x0C
      else if e = CHR ''n'' then Some CHR 0x0A
      else if e = CHR ''r'' then Some CHR 0x0D
      else if e = CHR ''t'' then Some CHR 0x09
      else None)"

text \<open>The characters of a string after its opening quote: the string and the rest.\<close>

fun parse_string :: "string \<Rightarrow> string \<Rightarrow> (string \<times> string) option" where
  "parse_string [] acc = None"
| "parse_string (c # cs) acc =
     (if c = CHR ''\"'' then Some (acc, cs)
      else if c = CHR 0x5C then
        (case cs of
           [] \<Rightarrow> None
         | e # es \<Rightarrow>
             if e = CHR ''u'' then
               (case es of
                  h1 # h2 # h3 # h4 # r \<Rightarrow>
                    (case (hex_val h1, hex_val h2, hex_val h3, hex_val h4) of
                       (Some a, Some b, Some c, Some d) \<Rightarrow>
                         parse_string r (append_unit acc (4096 * a + 256 * b + 16 * c + d))
                     | _ \<Rightarrow> None)
                | _ \<Rightarrow> None)
             else
               (case unescape e of
                  None \<Rightarrow> None
                | Some x \<Rightarrow> parse_string es (acc @ [x])))
      else if code c < 32 then None
      else parse_string cs (acc @ [c]))"

text \<open>
  A number: an optional minus, the integer part (no leading zero), an optional fraction,
  an optional exponent. \<open>decimal\<close> normalises the result: no trailing zero in the
  mantissa, and zero is \<open>JNum 0 0\<close>. A literal of magnitude at most \<open>2 ^ - 1075\<close>, half
  of the least positive double, is read as zero, as rounding to the nearest double does.
\<close>

definition span_digits :: "string \<Rightarrow> string \<times> string" where
  "span_digits cs = (takeWhile is_digit cs, dropWhile is_digit cs)"

definition parse_minus :: "string \<Rightarrow> bool \<times> string" where
  "parse_minus cs =
     (case cs of [] \<Rightarrow> (False, []) | c # r \<Rightarrow> if c = CHR ''-'' then (True, r) else (False, cs))"

definition parse_frac :: "string \<Rightarrow> (string \<times> string) option" where
  "parse_frac cs =
     (case cs of
        [] \<Rightarrow> Some ([], [])
      | c # r \<Rightarrow>
          if c = CHR ''.''
          then (if fst (span_digits r) = [] then None else Some (span_digits r))
          else Some ([], cs))"

definition parse_exp_sign :: "string \<Rightarrow> bool \<times> string" where
  "parse_exp_sign cs =
     (case cs of
        [] \<Rightarrow> (False, [])
      | c # r \<Rightarrow>
          if c = CHR ''-'' then (True, r) else if c = CHR ''+'' then (False, r) else (False, cs))"

definition parse_exp :: "string \<Rightarrow> (int \<times> string) option" where
  "parse_exp cs =
     (case cs of
        [] \<Rightarrow> Some (0, [])
      | c # r \<Rightarrow>
          if c = CHR ''e'' \<or> c = CHR ''E''
          then
            (let ds = span_digits (snd (parse_exp_sign r))
             in if fst ds = [] then None
                else Some (if fst (parse_exp_sign r) then - int (nat_of_digits (fst ds))
                           else int (nat_of_digits (fst ds)), snd ds))
          else Some (0, cs))"

definition decimal :: "bool \<Rightarrow> string \<Rightarrow> int \<Rightarrow> jsval" where
  "decimal neg digits e =
     (let ds = strip_zeros digits;
          m = int (nat_of_digits ds);
          ex = e + int (length digits - length ds)
      in if m = 0 then JNum 0 0
         else if ex < 0 \<and> m * 2 ^ 1075 \<le> 10 ^ nat (- ex) then JNum 0 0
         else JNum (if neg then - m else m) ex)"

definition parse_number :: "string \<Rightarrow> (jsval \<times> string) option" where
  "parse_number cs =
     (let ip = span_digits (snd (parse_minus cs))
      in if fst ip = [] \<or> (1 < length (fst ip) \<and> hd (fst ip) = CHR ''0'') then None
         else
           (case parse_frac (snd ip) of
              None \<Rightarrow> None
            | Some (fp, cs3) \<Rightarrow>
                (case parse_exp cs3 of
                   None \<Rightarrow> None
                 | Some (ex, cs4) \<Rightarrow>
                     Some (decimal (fst (parse_minus cs)) (fst ip @ fp) (ex - int (length fp)),
                           cs4))))"

datatype 'a parsed = Parsed 'a string | SyntaxError | OutOfFuel

definition literal :: "string \<Rightarrow> jsval \<Rightarrow> string \<Rightarrow> jsval parsed" where
  "literal w v cs =
     (if take (length w) cs = w then Parsed v (drop (length w) cs) else SyntaxError)"

text \<open>A value that is not an array or an object: a string, a number or a literal.\<close>

definition parse_scalar :: "string \<Rightarrow> jsval parsed" where
  "parse_scalar cs =
     (case cs of
        [] \<Rightarrow> SyntaxError
      | c # r \<Rightarrow>
          if c = CHR ''\"'' then
            (case parse_string r [] of
               None \<Rightarrow> SyntaxError
             | Some (s, r') \<Rightarrow> Parsed (JStr s) r')
          else if c = CHR ''-'' \<or> is_digit c then
            (case parse_number cs of
               None \<Rightarrow> SyntaxError
             | Some (v, r') \<Rightarrow> Parsed v r')
          else if c = CHR ''t'' then literal ''true'' (JBool True) cs
          else if c = CHR ''f'' then literal ''false'' (JBool False) cs
          else if c = CHR ''n'' then literal ''null'' JNull cs
          else SyntaxError)"

fun parse_value :: "nat \<Rightarrow> string \<Rightarrow> jsval parsed"
  and parse_elements :: "nat \<Rightarrow> string \<Rightarrow> jsval list \<Rightarrow> jsval parsed"
  and parse_members :: "nat \<Rightarrow> string \<Rightarrow> (string \<times> jsval) list \<Rightarrow> jsval parsed" where
  "parse_value 0 cs = OutOfFuel"
| "parse_value (Suc n) cs =
     (case skip_ws cs of
        [] \<Rightarrow> SyntaxError
      | c # r \<Rightarrow>
          if c = CHR ''['' then
            (case skip_ws r of
               [] \<Rightarrow> SyntaxError
             | c' # r' \<Rightarrow>
                 if c' = CHR '']'' then Parsed (JArr []) r' else parse_elements n r [])
          else if c = CHR ''{'' then
            (case skip_ws r of
               [] \<Rightarrow> SyntaxError
             | c' # r' \<Rightarrow>
                 if c' = CHR ''}'' then Parsed (JObj []) r' else parse_members n r [])
          else parse_scalar (c # r))"
| "parse_elements 0 cs acc = OutOfFuel"
| "parse_elements (Suc n) cs acc =
     (case parse_value n cs of
        Parsed v r \<Rightarrow>
          (case skip_ws r of
             [] \<Rightarrow> SyntaxError
           | c # r' \<Rightarrow>
               if c = CHR '','' then parse_elements n r' (acc @ [v])
               else if c = CHR '']'' then Parsed (JArr (acc @ [v])) r'
               else SyntaxError)
      | SyntaxError \<Rightarrow> SyntaxError
      | OutOfFuel \<Rightarrow> OutOfFuel)"
| "parse_members 0 cs acc = OutOfFuel"
| "parse_members (Suc n) cs acc =
     (case skip_ws cs of
        [] \<Rightarrow> SyntaxError
      | q # r \<Rightarrow>
          if q \<noteq> CHR ''\"'' then SyntaxError
          else
            (case parse_string r [] of
               None \<Rightarrow> SyntaxError
             | Some (k, r1) \<Rightarrow>
                 (case skip_ws r1 of
                    [] \<Rightarrow> SyntaxError
                  | c # r2 \<Rightarrow>
                      if c \<noteq> CHR '':'' then SyntaxError
                      else
                        (case parse_value n r2 of
                           Parsed v r3 \<Rightarrow>
                             (case skip_ws r3 of
                                [] \<Rightarrow> SyntaxError
                              | d # r4 \<Rightarrow>
                                  if d = CHR '','' then parse_members n r4 (obj_set acc k v)
                                  else if d = CHR ''}'' then Parsed (JObj (obj_set acc k v)) r4
                                  else SyntaxError)
                         | SyntaxError \<Rightarrow> SyntaxError
                         | OutOfFuel \<Rightarrow> OutOfFuel))))"

definition JSON_parse :: "string \<Rightarrow> jsval option" where
  "JSON_parse s =
     (case parse_value (2 * length s + 2) s of
        Parsed v r \<Rightarrow> if skip_ws r = [] then Some v else None
      | SyntaxError \<Rightarrow> None
      | OutOfFuel \<Rightarrow> None)"

section \<open>Session storage\<close>

text \<open>\<open>sessionStorage\<close>: a map from keys to strings, passed and returned explicitly.\<close>

type_synonym storage = "string \<rightharpoonup> string"

definition getItem :: "storage \<Rightarrow> string \<Rightarrow> string option" where
  "getItem sessionStorage k = sessionStorage k"



section \<open>Auth state: action types, reducer, provider\<close>

definition authTypes_login :: string where
  "authTypes_login = ''[Auth] Log in''"

definition authTypes_logout :: string where
  "authTypes_logout = ''[Auth] Log out''"

record auth_state =
  logged :: bool
  data :: jsval

definition initialAuthState :: auth_state where
  "initialAuthState = \<lparr>logged = False, data = JNull\<rparr>"

text \<open>An action \<open>{ type, payload }\<close>; a missing \<open>payload\<close> is \<open>JUndefined\<close>.\<close>

record action =
  type :: string
  payload :: jsval

text \<open>
  \<open>authReducer\<close>: the state argument is \<open>None\<close> when the caller passes \<open>undefined\<close>
  (then the default \<open>initialAuthState\<close> applies). The three branches are the three cases
  of the \<open>switch\<close>.
\<close>

definition authReducer :: "auth_state option \<Rightarrow> action \<Rightarrow> auth_state" where
  "authReducer initialState a =
     (let st = (case initialState of None \<Rightarrow> initialAuthState | Some s \<Rightarrow> s)
      in if type a = authTypes_login then st\<lparr>logged := True, data := payload a\<rparr>
         else if type a = authTypes_logout then initialAuthState
         else st)"

text \<open>
  \<open>initializeAuthState\<close>. The body of the \<open>try\<close> is \<open>initializeAuthState_try\<close>, which
  is \<open>None\<close> when \<open>JSON.parse\<close> throws; the \<open>catch\<close> then returns a copy of
  \<open>initialAuthState\<close> (the warning it logs is not modelled).
\<close>

definition initializeAuthState_try :: "storage \<Rightarrow> string \<Rightarrow> auth_state option" where
  "initializeAuthState_try sessionStorage name =
     (let raw = getItem sessionStorage name;
          parsed = (case raw of
                      None \<Rightarrow> Some JNull
                    | Some r \<Rightarrow> if r \<noteq> [] then JSON_parse r else Some JNull)
      in case parsed of
           None \<Rightarrow> None
         | Some d \<Rightarrow> Some (initialAuthState\<lparr>logged := truthy d, data := d\<rparr>))"

definition initializeAuthState :: "storage \<Rightarrow> string \<Rightarrow> auth_state" where
  "initializeAuthState sessionStorage name =
     (case initializeAuthState_try sessionStorage name of
        Some st \<Rightarrow> st
      | None \<Rightarrow> initialAuthState)"

text \<open>
  React's \<open>useReducer(reducer, initialArg, init)\<close> on the first render (library model):
  without a third argument the state starts as \<open>initialArg\<close>; with one, React calls it
  on \<open>initialArg\<close>, which throws a \<open>TypeError\<close> when the argument is not a function.
\<close>

datatype 's initializer = NoInitializer | InitializerFunction "'s \<Rightarrow> 's" | NotAFunction 's

definition useReducer :: "('s \<Rightarrow> 'a \<Rightarrow> 's) \<Rightarrow> 's \<Rightarrow> 's initializer \<Rightarrow> js_error + 's" where
  "useReducer reducer initialArg init =
     (case init of
        NoInitializer \<Rightarrow> Inr initialArg
      | InitializerFunction f \<Rightarrow> Inr (f initialArg)
      | NotAFunction v \<Rightarrow> Inl (JsError ''TypeError'' ''init is not a function''))"

text \<open>
  The component \<open>AuthProvider\<close> on its first render: the reducer state and the storage,
  or the exception the render throws. The source passes the value of
  \<open>initializeAuthState(name)\<close>, an object, as the third argument of \<open>useReducer\<close>, so the
  render throws whatever the storage holds (lemma \<open>AuthProvider_throws\<close>).

  \<open>onLogIn\<close> and \<open>onLogOut\<close> are the two functions the component defines after
  \<open>useReducer\<close>. They are given as functions of the reducer state and the storage: they
  dispatch to the reducer, then write the storage slot.
\<close>

type_synonym provider = "auth_state \<times> storage"

definition AuthProvider :: "storage \<Rightarrow> string \<Rightarrow> js_error + provider" where
  "AuthProvider sessionStorage name =
     (case useReducer (\<lambda>st. authReducer (Some st)) initialAuthState
             (NotAFunction (initializeAuthState sessionStorage name)) of
        Inl e \<Rightarrow> Inl e
      | Inr authState \<Rightarrow> Inr (authState, sessionStorage))"



text \<open>The state the reducer yields from a state by a sequence of actions.\<close>

definition reduce_actions :: "auth_state \<Rightarrow> action list \<Rightarrow> auth_state" where
  "reduce_actions st actions = foldl (\<lambda>s a. authReducer (Some s) a) st actions"

text \<open>The invariant of the auth state: \<open>logged\<close> exactly when \<open>data\<close> is not \<open>null\<close>.\<close>

definition auth_inv :: "auth_state \<Rightarrow> bool" where
  "auth_inv st = (logged st \<longleftrightarrow> data st \<noteq> JNull)"

section \<open>Numbers\<close>

text \<open>
  The counter computes on JavaScript Numbers, which are binary64 values. \<open>Finite m e\<close>
  is the number \<open>m * 2 ^ e\<close>; a double is a \<open>Finite m e\<close> with \<open>\<bar>m\<bar> < 2 ^ 53\<close> and
  \<open>- 1074 \<le> e \<le> 971\<close>, the same double having several such pairs. \<open>Infinity s\<close> is
  negative when \<open>s\<close> holds. The sign of zero is not kept: \<open>Finite 0 e\<close> is both zeros,
  which \<open>+\<close>, \<open>-\<close> and \<open>=== 0\<close> do not tell apart except in the sign of a zero result.

  \<open>js_add\<close> is \<open>+\<close> on Numbers: the exact sum, rounded to the nearest double with ties
  to the even mantissa (\<open>round53\<close>), and to an infinity from \<open>2 ^ 1024\<close> on
  (\<open>overflow\<close>). On doubles the exact sum is a multiple of \<open>2 ^ - 1074\<close>, so it never
  rounds below that. \<open>js_sub\<close> is \<open>-\<close>, and \<open>is_zero\<close> is \<open>=== 0\<close>.
\<close>

datatype number = Finite int int | Infinity bool | NaN

function bitlen :: "int \<Rightarrow> nat" where
  "bitlen n = (if n \<le> 0 then 0 else Suc (bitlen (n div 2)))"
  by pat_completeness auto
termination
  by (relation "measure nat") auto

definition overflow :: "bool \<Rightarrow> int \<Rightarrow> int \<Rightarrow> number" where
  "overflow neg q e =
     (if 1024 < int (bitlen q) + e then Infinity neg
      else Finite (if neg then - q else q) e)"

definition round53 :: "int \<Rightarrow> int \<Rightarrow> number" where
  "round53 m e =
     (let a = \<bar>m\<bar>; l = bitlen a
      in if l \<le> 53 then overflow (m < 0) a e
         else
           let s = l - 53;
               q = a div 2 ^ s;
               r = a mod 2 ^ s;
               half = 2 ^ (s - 1);
               q' = (if half < r \<or> (r = half \<and> odd q) then q + 1 else q)
           in overflow (m < 0) q' (e + int s))"

fun js_add :: "number \<Rightarrow> number \<Rightarrow> number" where
  "js_add (Finite m1 e1) (Finite m2 e2) =
     (let e = min e1 e2
      in round53 (m1 * 2 ^ nat (e1 - e) + m2 * 2 ^ nat (e2 - e)) e)"
| "js_add NaN y = NaN"
| "js_add x NaN = NaN"
| "js_add (Infinity s) (Infinity t) = (if s = t then Infinity s else NaN)"
| "js_add (Infinity s) (Finite m e) = Infinity s"
| "js_add (Finite m e) (Infinity s) = Infinity s"

fun js_neg :: "number \<Rightarrow> number" where
  "js_neg (Finite m e) = Finite (- m) e"
| "js_neg (Infinity s) = Infinity (\<not> s)"
| "js_neg NaN = NaN"

definition js_sub :: "number \<Rightarrow> number \<Rightarrow> number" where
  "js_sub x y = js_add x (js_neg y)"

fun is_zero :: "number \<Rightarrow> bool" where
  "is_zero (Finite m e) = (m = 0)"
| "is_zero (Infinity s) = False"
| "is_zero NaN = False"

section \<open>Counter\<close>

text \<open>
  \<open>useCounter\<close>. The state cell holds the Number \<open>count\<close>; \<open>useCounter\<close> gives its
  first content. Every render creates \<open>increment\<close>, \<open>decrement\<close> and \<open>reset\<close> as
  closures over the \<open>count\<close> and the \<open>initialValue\<close> it reads. Called on the cell,
  each returns the cell after its \<open>setCount\<close>, which is the cell unchanged where
  \<open>decrement\<close> returns early. \<open>None\<close> is an omitted argument; the arguments are
  Numbers.
\<close>

definition useCounter :: "number option \<Rightarrow> number" where
  "useCounter initialValue = (case initialValue of None \<Rightarrow> Finite 0 0 | Some v \<Rightarrow> v)"

definition increment :: "number \<Rightarrow> number option \<Rightarrow> number \<Rightarrow> number" where
  "increment count value cell =
     js_add count (case value of None \<Rightarrow> Finite 1 0 | Some v \<Rightarrow> v)"

definition decrement :: "number \<Rightarrow> number option \<Rightarrow> number \<Rightarrow> number" where
  "decrement count value cell =
     (if is_zero count then cell
      else js_sub count (case value of None \<Rightarrow> Finite 1 0 | Some v \<Rightarrow> v))"

definition reset :: "number option \<Rightarrow> number \<Rightarrow> number" where
  "reset initialValue cell = (case initialValue of None \<Rightarrow> Finite 0 0 | Some v \<Rightarrow> v)"

text \<open>
  \<open>increment(amount)\<close> then \<open>decrement(amount)\<close>, from the count \<open>count\<close>. In
  \<open>roundtrip\<close> the component has rendered in between, so \<open>decrement\<close> is the closure
  over the incremented count. In \<open>roundtrip_in_one_render\<close> both calls are made on the
  closures of one render, as in one event handler.
\<close>

definition roundtrip :: "number \<Rightarrow> number \<Rightarrow> number" where
  "roundtrip count amount =
     (let incremented = increment count (Some amount) count
      in decrement incremented (Some amount) incremented)"

definition roundtrip_in_one_render :: "number \<Rightarrow> number \<Rightarrow> number" where
  "roundtrip_in_one_render count amount =
     decrement count (Some amount) (increment count (Some amount) count)"

section \<open>Request executors\<close>

text \<open>
  The two hooks \<open>useFetch\<close> and \<open>useApi\<close> share the shape of their arguments, of their
  state and of what they hand to \<open>fetch\<close>.

  \<^item> \<open>options\<close>: the second argument; a field is \<open>None\<close> when the caller left it out,
    and the whole argument is \<open>None\<close> when it is omitted.
  \<^item> \<open>request_state\<close>: the three \<open>useState\<close> cells and \<open>controllerRef.current\<close>
    (\<open>None\<close> for \<open>null\<close>).
  \<^item> \<open>fetch_call\<close>: the arguments of one call of \<open>fetch\<close>; its \<open>signal\<close> is the
    controller in \<open>controllerRef\<close>.
  \<^item> \<open>response\<close>: the status line of a response and what \<open>resp.json()\<close> settles to.
    \<open>ok\<close> is the Fetch API's \<open>Response.ok\<close>: the status is in the range 200 to 299.
\<close>

record options =
  headers :: "(string \<times> string) list option"
  autoFetch :: "bool option"

record abort_controller =
  aborted :: bool

record request_state =
  data :: jsval
  hasError :: "string option"
  isLoading :: bool
  controllerRef :: "abort_controller option"

record fetch_call =
  fetch_url :: string
  fetch_method :: string
  fetch_headers :: "(string \<times> string) list"
  fetch_body :: "string option"

record response =
  status :: nat
  statusText :: string
  json :: "js_error + jsval"

definition ok :: "response \<Rightarrow> bool" where
  "ok resp = (200 \<le> status resp \<and> status resp \<le> 299)"

text \<open>
  What happens around one request is given by a \<open>world\<close>: what the network settles the
  \<open>fetch\<close> promise to when nothing aborts it (\<open>Inl\<close> a rejection, \<open>Inr\<close> a response),
  and at which \<open>await\<close>, if any, the effect's cleanup runs. A promise awaited on an
  aborted signal rejects with an \<open>AbortError\<close> (\<open>settle\<close>); \<open>abort_message\<close> is the
  message the platform gives that error.
\<close>

datatype cleanup_time = NoCleanup | DuringFetch | DuringJson

record world =
  cleanup_at :: cleanup_time
  network :: "js_error + response"
  abort_message :: string

definition settle ::
  "abort_controller option \<Rightarrow> string \<Rightarrow> js_error + 'a \<Rightarrow> js_error + 'a" where
  "settle signal msg settled =
     (case signal of
        None \<Rightarrow> settled
      | Some c \<Rightarrow> if aborted c then Inl (JsError ''AbortError'' msg) else settled)"

subsection \<open>\<open>useFetch\<close>\<close>

text \<open>
  \<open>useFetch_headers\<close> and \<open>useFetch_autoFetch\<close> are the destructuring defaults,
  \<open>useFetch\<close> is the state of the first render. \<open>useFetch_request\<close> is one call of
  \<open>request\<close> run to its end: the state before \<open>await fetch\<close>, the \<open>try\<close> with its two
  awaits, the \<open>catch\<close> (\<open>useFetch_catch\<close>) and the \<open>finally\<close>; it returns the state
  and the call of \<open>fetch\<close> it made. \<open>useFetch_effect\<close> is the body of the effect on
  activation, with the requests it issues; \<open>useFetch_cleanup\<close> is the function it
  returns.
\<close>

definition useFetch_headers :: "options option \<Rightarrow> (string \<times> string) list" where
  "useFetch_headers opts =
     (case opts of
        None \<Rightarrow> []
      | Some o' \<Rightarrow> (case headers o' of None \<Rightarrow> [] | Some h \<Rightarrow> h))"

definition useFetch_autoFetch :: "options option \<Rightarrow> bool" where
  "useFetch_autoFetch opts =
     (case opts of
        None \<Rightarrow> False
      | Some o' \<Rightarrow> (case autoFetch o' of None \<Rightarrow> False | Some b \<Rightarrow> b))"

definition useFetch :: request_state where
  "useFetch = \<lparr>data = JNull, hasError = None, isLoading = False, controllerRef = None\<rparr>"

definition useFetch_cleanup :: "request_state \<Rightarrow> request_state" where
  "useFetch_cleanup st =
     (case controllerRef st of
        None \<Rightarrow> st
      | Some c \<Rightarrow> st\<lparr>controllerRef := Some (c\<lparr>aborted := True\<rparr>)\<rparr>)"

definition useFetch_catch :: "js_error \<Rightarrow> request_state \<Rightarrow> request_state" where
  "useFetch_catch err st =
     (if err_name err \<noteq> ''AbortError'' then st\<lparr>hasError := Some (err_message err)\<rparr> else st)"

definition useFetch_request ::
  "string \<Rightarrow> options option \<Rightarrow> string \<Rightarrow> jsval \<Rightarrow> world \<Rightarrow> request_state
     \<Rightarrow> request_state \<times> fetch_call" where
  "useFetch_request url opts method body w st =
     (let body' = (if body = JUndefined then JNull else body);
          st1 = st\<lparr>isLoading := True, hasError := None,
                   controllerRef := Some \<lparr>aborted = False\<rparr>\<rparr>;
          call = \<lparr>fetch_url = url, fetch_method = method,
                  fetch_headers =
                    spread [(''Content-Type'', ''application/json'')] (useFetch_headers opts),
                  fetch_body = (if truthy body' then JSON_stringify body' else None)\<rparr>;
          st2 = (if cleanup_at w = DuringFetch then useFetch_cleanup st1 else st1);
          st3 =
            (case settle (controllerRef st2) (abort_message w) (network w) of
               Inl err \<Rightarrow> useFetch_catch err st2
             | Inr resp \<Rightarrow>
                 if \<not> ok resp
                 then useFetch_catch
                        (JsError ''Error''
                           (''HTTP '' @ string_of_nat (status resp) @ '': '' @ statusText resp))
                        st2
                 else
                   (let st2' = (if cleanup_at w = DuringJson then useFetch_cleanup st2 else st2)
                    in case settle (controllerRef st2') (abort_message w) (json resp) of
                         Inl err \<Rightarrow> useFetch_catch err st2'
                       | Inr result \<Rightarrow> st2'\<lparr>data := result\<rparr>))
      in (st3\<lparr>isLoading := False\<rparr>, call))"

definition useFetch_effect ::
  "string \<Rightarrow> options option \<Rightarrow> world \<Rightarrow> request_state
     \<Rightarrow> request_state \<times> fetch_call list" where
  "useFetch_effect url opts w st =
     (if useFetch_autoFetch opts
      then (fst (useFetch_request url opts ''GET'' JUndefined w st),
            [snd (useFetch_request url opts ''GET'' JUndefined w st)])
      else (st, []))"

definition useFetch_get ::
  "string \<Rightarrow> options option \<Rightarrow> world \<Rightarrow> request_state \<Rightarrow> request_state \<times> fetch_call" where
  "useFetch_get url opts = useFetch_request url opts ''GET'' JUndefined"

definition useFetch_post ::
  "string \<Rightarrow> options option \<Rightarrow> jsval \<Rightarrow> world \<Rightarrow> request_state
     \<Rightarrow> request_state \<times> fetch_call" where
  "useFetch_post url opts body = useFetch_request url opts ''POST'' body"

definition useFetch_put ::
  "string \<Rightarrow> options option \<Rightarrow> jsval \<Rightarrow> world \<Rightarrow> request_state
     \<Rightarrow> request_state \<times> fetch_call" where
  "useFetch_put url opts body = useFetch_request url opts ''PUT'' body"

definition useFetch_patch ::
  "string \<Rightarrow> options option \<Rightarrow> jsval \<Rightarrow> world \<Rightarrow> request_state
     \<Rightarrow> request_state \<times> fetch_call" where
  "useFetch_patch url opts body = useFetch_request url opts ''PATCH'' body"

definition useFetch_remove ::
  "string \<Rightarrow> options option \<Rightarrow> world \<Rightarrow> request_state \<Rightarrow> request_state \<times> fetch_call" where
  "useFetch_remove url opts = useFetch_request url opts ''DELETE'' JUndefined"

subsection \<open>\<open>useApi\<close>\<close>

text \<open>The second definition of the request executor, translated on its own.\<close>

definition useApi_headers :: "options option \<Rightarrow> (string \<times> string) list" where
  "useApi_headers opts =
     (case opts of
        None \<Rightarrow> []
      | Some o' \<Rightarrow> (case headers o' of None \<Rightarrow> [] | Some h \<Rightarrow> h))"

definition useApi_autoFetch :: "options option \<Rightarrow> bool" where
  "useApi_autoFetch opts =
     (case opts of
        None \<Rightarrow> False
      | Some o' \<Rightarrow> (case autoFetch o' of None \<Rightarrow> False | Some b \<Rightarrow> b))"

definition useApi :: request_state where
  "useApi = \<lparr>data = JNull, hasError = None, isLoading = False, controllerRef = None\<rparr>"

definition useApi_cleanup :: "request_state \<Rightarrow> request_state" where
  "useApi_cleanup st =
     (case controllerRef st of
        None \<Rightarrow> st
      | Some c \<Rightarrow> st\<lparr>controllerRef := Some (c\<lparr>aborted := True\<rparr>)\<rparr>)"

definition useApi_catch :: "js_error \<Rightarrow> request_state \<Rightarrow> request_state" where
  "useApi_catch err st =
     (if err_name err \<noteq> ''AbortError'' then st\<lparr>hasError := Some (err_message err)\<rparr> else st)"

definition useApi_request ::
  "string \<Rightarrow> options option \<Rightarrow> string \<Rightarrow> jsval \<Rightarrow> world \<Rightarrow> request_state
     \<Rightarrow> request_state \<times> fetch_call" where
  "useApi_request url opts method body w st =
     (let body' = (if body = JUndefined then JNull else body);
          st1 = st\<lparr>isLoading := True, hasError := None,
                   controllerRef := Some \<lparr>aborted = False\<rparr>\<rparr>;
          call = \<lparr>fetch_url = url, fetch_method = method,
                  fetch_headers =
                    spread [(''Content-Type'', ''application/json'')] (useApi_headers opts),
                  fetch_body = (if truthy body' then JSON_stringify body' else None)\<rparr>;
          st2 = (if cleanup_at w = DuringFetch then useApi_cleanup st1 else st1);
          st3 =
            (case settle (controllerRef st2) (abort_message w) (network w) of
               Inl err \<Rightarrow> useApi_catch err st2
             | Inr resp \<Rightarrow>
                 if \<not> ok resp
                 then useApi_catch
                        (JsError ''Error''
                           (''HTTP '' @ string_of_nat (status resp) @ '': '' @ statusText resp))
                        st2
                 else
                   (let st2' = (if cleanup_at w = DuringJson then useApi_cleanup st2 else st2)
                    in case settle (controllerRef st2') (abort_message w) (json resp) of
                         Inl err \<Rightarrow> useApi_catch err st2'
                       | Inr result \<Rightarrow> st2'\<lparr>data := result\<rparr>))
      in (st3\<lparr>isLoading := False\<rparr>, call))"

definition useApi_effect ::
  "string \<Rightarrow> options option \<Rightarrow> world \<Rightarrow> request_state
     \<Rightarrow> request_state \<times> fetch_call list" where
  "useApi_effect url opts w st =
     (if useApi_autoFetch opts
      then (fst (useApi_request url opts ''GET'' JUndefined w st),
            [snd (useApi_request url opts ''GET'' JUndefined w st)])
      else (st, []))"

definition useApi_get ::
  "string \<Rightarrow> options option \<Rightarrow> world \<Rightarrow> request_state \<Rightarrow> request_state \<times> fetch_call" where
  "useApi_get url opts = useApi_request url opts ''GET'' JUndefined"

definition useApi_post ::
  "string \<Rightarrow> options option \<Rightarrow> jsval \<Rightarrow> world \<Rightarrow> request_state
     \<Rightarrow> request_state \<times> fetch_call" where
  "useApi_post url opts body = useApi_request url opts ''POST'' body"

definition useApi_put ::
  "string \<Rightarrow> options option \<Rightarrow> jsval \<Rightarrow> world \<Rightarrow> request_state
     \<Rightarrow> request_state \<times> fetch_call" where
  "useApi_put url opts body = useApi_request url opts ''PUT'' body"

definition useApi_patch ::
  "string \<Rightarrow> options option \<Rightarrow> jsval \<Rightarrow> world \<Rightarrow> request_state
     \<Rightarrow> request_state \<times> fetch_call" where
  "useApi_patch url opts body = useApi_request url opts ''PATCH'' body"

definition useApi_remove ::
  "string \<Rightarrow> options option \<Rightarrow> world \<Rightarrow> request_state \<Rightarrow> request_state \<times> fetch_call" where
  "useApi_remove url opts = useApi_request url opts ''DELETE'' JUndefined"

section \<open>Form\<close>

text \<open>
  \<open>useForm(initialForm = {}, validateFn)\<close>. The two effects of the hook are keyed on the
  identity of \<open>initialForm\<close>, \<open>formState\<close> and \<open>validateFn\<close> (React compares
  dependencies with \<open>Object.is\<close>), so the model gives every object an identity next to
  its contents. An identity is either \<open>Given k\<close>, an object the caller holds across
  renders, or \<open>Fresh n\<close>, the \<open>n\<close>-th object allocated while the hook runs.
\<close>

datatype ident = Given nat | Fresh nat

record 'a obj =
  identity :: ident
  contents :: 'a

text \<open>
  How the component that calls the hook writes an argument: it leaves it out
  (\<open>Omitted\<close>), it writes an object literal or a function expression in the call
  (\<open>Inline\<close>, a new object in every render), or it passes an object that lives outside
  the render (\<open>Stable k\<close>, the same object \<open>Given k\<close> in every render).
\<close>

datatype 'a arg = Omitted | Inline 'a | Stable nat 'a

text \<open>The fields of \<open>event.target\<close> that \<open>onInputChange\<close> reads.\<close>

record target =
  name :: string
  type :: string
  "value" :: string
  checked :: bool

type_synonym form = "(string \<times> jsval) list"

type_synonym form_errors = "(string \<times> string) list"

text \<open>A validation function; \<open>None\<close> is a falsy result (\<open>validationErrors || {}\<close>).\<close>

type_synonym validateFn = "form \<Rightarrow> form_errors option"

text \<open>
  The hook between two renders. \<open>formState\<close> and \<open>errors\<close> are the two \<open>useState\<close>
  cells. \<open>initialForm\<close> and \<open>validateFn\<close> are the arguments of the last render and
  \<open>rendered_formState\<close> is the identity of the \<open>formState\<close> that render saw: these are
  the dependencies React compares at the next render. \<open>pending\<close> tells that a state
  cell has been set to another object since the last render, so that React renders
  again. \<open>next_fresh\<close> numbers the next object allocated.
\<close>

record form_hook =
  formState :: "form obj"
  errors :: "form_errors obj"
  initialForm :: "form obj"
  validateFn :: "validateFn obj option"
  rendered_formState :: ident
  pending :: bool
  next_fresh :: nat

text \<open>
  The values of the two parameters in one render, with the number of the next object
  to allocate. The default \<open>initialForm = {}\<close> is evaluated in every render in which the
  argument is left out.
\<close>

definition the_initialForm :: "form arg \<Rightarrow> nat \<Rightarrow> form obj \<times> nat" where
  "the_initialForm a n =
     (case a of
        Omitted \<Rightarrow> (\<lparr>identity = Fresh n, contents = []\<rparr>, Suc n)
      | Inline v \<Rightarrow> (\<lparr>identity = Fresh n, contents = v\<rparr>, Suc n)
      | Stable k v \<Rightarrow> (\<lparr>identity = Given k, contents = v\<rparr>, n))"

definition the_validateFn :: "validateFn arg \<Rightarrow> nat \<Rightarrow> validateFn obj option \<times> nat" where
  "the_validateFn a n =
     (case a of
        Omitted \<Rightarrow> (None, n)
      | Inline f \<Rightarrow> (Some \<lparr>identity = Fresh n, contents = f\<rparr>, Suc n)
      | Stable k f \<Rightarrow> (Some \<lparr>identity = Given k, contents = f\<rparr>, n))"

text \<open>
  The body of the validation effect, with the \<open>validateFn\<close> and the \<open>formState\<close> of the
  render it belongs to: \<open>setErrors(validationErrors || {})\<close>. The result of a
  validation function is taken to be a new object at every call.
\<close>

definition validation_effect :: "validateFn obj option \<Rightarrow> form obj \<Rightarrow> form_hook \<Rightarrow> form_hook" where
  "validation_effect v fs h =
     (case v of
        None \<Rightarrow> h
      | Some f \<Rightarrow>
          h\<lparr>errors := \<lparr>identity = Fresh (next_fresh h),
                        contents = (case contents f (contents fs) of None \<Rightarrow> [] | Some e \<Rightarrow> e)\<rparr>,
            next_fresh := Suc (next_fresh h), pending := True\<rparr>)"

text \<open>
  The body of the first effect: \<open>setFormState(initialForm)\<close>. Setting a cell to the
  object it holds schedules no render.
\<close>

definition initialForm_effect :: "form obj \<Rightarrow> form_hook \<Rightarrow> form_hook" where
  "initialForm_effect i h =
     h\<lparr>formState := i,
       pending := (if identity i = identity (formState h) then pending h else True)\<rparr>"

text \<open>
  The first render and its effects. Both cells are initialised, then both effects run,
  in the order of the source.
\<close>

definition useForm :: "form arg \<Rightarrow> validateFn arg \<Rightarrow> form_hook" where
  "useForm ia va =
     (let i = fst (the_initialForm ia 0);
          n1 = snd (the_initialForm ia 0);
          v = fst (the_validateFn va n1);
          n2 = snd (the_validateFn va n1);
          h = \<lparr>formState = i, errors = \<lparr>identity = Fresh n2, contents = []\<rparr>,
               initialForm = i, validateFn = v, rendered_formState = identity i,
               pending = False, next_fresh = Suc n2\<rparr>
      in validation_effect v i (initialForm_effect i h))"

text \<open>
  A later render and its effects. The first effect runs when \<open>initialForm\<close> is not the
  object of the render before; the validation effect runs when \<open>formState\<close> or
  \<open>validateFn\<close> is not, and it validates the \<open>formState\<close> this render saw.
\<close>

definition render :: "form arg \<Rightarrow> validateFn arg \<Rightarrow> form_hook \<Rightarrow> form_hook" where
  "render ia va h =
     (let i = fst (the_initialForm ia (next_fresh h));
          n1 = snd (the_initialForm ia (next_fresh h));
          v = fst (the_validateFn va n1);
          n2 = snd (the_validateFn va n1);
          fs = formState h;
          h0 = h\<lparr>initialForm := i, validateFn := v, rendered_formState := identity fs,
                pending := False, next_fresh := n2\<rparr>;
          h1 = (if identity i = identity (initialForm h) then h0 else initialForm_effect i h0)
      in if identity fs = rendered_formState h
            \<and> map_option identity v = map_option identity (validateFn h)
         then h1 else validation_effect v fs h1)"

text \<open>
  The handlers. \<open>onInputChange\<close> stores a new object,
  \<open>{...prev, [name]: type === "checkbox" ? checked : value}\<close>. \<open>onResetForm\<close> is
  memoised on \<open>initialForm\<close>, so it stores the \<open>initialForm\<close> of the last render, and
  a new empty \<open>errors\<close>. \<open>setFormState\<close> is the setter the hook returns, called with
  an object the caller has just built.
\<close>

definition onInputChange :: "target \<Rightarrow> form_hook \<Rightarrow> form_hook" where
  "onInputChange t h =
     h\<lparr>formState :=
          \<lparr>identity = Fresh (next_fresh h),
           contents = obj_set (contents (formState h)) (name t)
                        (if type t = ''checkbox'' then JBool (checked t) else JStr (value t))\<rparr>,
        next_fresh := Suc (next_fresh h), pending := True\<rparr>"

definition onResetForm :: "form_hook \<Rightarrow> form_hook" where
  "onResetForm h =
     h\<lparr>formState := initialForm h,
        errors := \<lparr>identity = Fresh (next_fresh h), contents = []\<rparr>,
        next_fresh := Suc (next_fresh h), pending := True\<rparr>"

definition setFormState :: "form \<Rightarrow> form_hook \<Rightarrow> form_hook" where
  "setFormState x h =
     h\<lparr>formState := \<lparr>identity = Fresh (next_fresh h), contents = x\<rparr>,
        next_fresh := Suc (next_fresh h), pending := True\<rparr>"

text \<open>\<open>isValid\<close> is \<open>Object.keys(errors).length === 0\<close>.\<close>

definition isValid :: "form_hook \<Rightarrow> bool" where
  "isValid h = (length (map fst (contents (errors h))) = 0)"

text \<open>
  React renders again while a render is pending. \<open>rerender n\<close> does so at most \<open>n\<close>
  times: it returns the hook once no render is pending, and \<open>None\<close> when one still is
  after \<open>n\<close> renders. Where that is so for every \<open>n\<close>, React goes on rendering, or
  stops the component with the error \<open>Maximum update depth exceeded\<close>.
\<close>

fun rerender :: "nat \<Rightarrow> form arg \<Rightarrow> validateFn arg \<Rightarrow> form_hook \<Rightarrow> form_hook option" where
  "rerender 0 ia va h = (if pending h then None else Some h)"
| "rerender (Suc n) ia va h = (if pending h then rerender n ia va (render ia va h) else Some h)"

text \<open>
  A run of the hook: the pending renders, then each call of a handler followed by the
  renders it causes.
\<close>

datatype form_call = InputChange target | ResetForm | SetFormState form

fun call :: "form_call \<Rightarrow> form_hook \<Rightarrow> form_hook" where
  "call (InputChange t) h = onInputChange t h"
| "call ResetForm h = onResetForm h"
| "call (SetFormState x) h = setFormState x h"

fun form_run ::
  "nat \<Rightarrow> form arg \<Rightarrow> validateFn arg \<Rightarrow> form_hook \<Rightarrow> form_call list \<Rightarrow> form_hook option" where
  "form_run n ia va h [] = rerender n ia va h"
| "form_run n ia va h (c # cs) =
     (case rerender n ia va h of
        None \<Rightarrow> None
      | Some h' \<Rightarrow> form_run n ia va (call c h') cs)"

text \<open>
  A validation function, \<open>f => f.name === '' ? { name: 'Name is required' } : {}\<close>, and
  the event of typing \<open>v\<close> into the text input \<open>name\<close>.
\<close>

definition required_name :: validateFn where
  "required_name f =
     (if map_of f ''name'' = Some (JStr '''') then Some [(''name'', ''Name is required'')]
      else Some [])"

definition edit_name :: "string \<Rightarrow> target" where
  "edit_name v = \<lparr>name = ''name'', type = ''text'', value = v, checked = False\<rparr>"

text \<open>
  Objects are numbered in the order of their allocation: the objects the hook holds
  were allocated before the next one.
\<close>

definition fresh_below :: "nat \<Rightarrow> ident \<Rightarrow> bool" where
  "fresh_below n x = (case x of Given k \<Rightarrow> True | Fresh k \<Rightarrow> k < n)"

definition wf_hook :: "form_hook \<Rightarrow> bool" where
  "wf_hook h = (fresh_below (next_fresh h) (identity (formState h))
               \<and> fresh_below (next_fresh h) (identity (initialForm h)))"

section \<open>The JSON reader never runs out of fuel\<close>

text \<open>
  Every reader consumes at least one character of its input, so the fuel
  \<open>2 * length s + 2\<close> is enough: \<open>JSON_parse s = None\<close> only on a syntax error.
\<close>

lemma parse_string_shorter: "parse_string cs acc = Some (s, r) \<Longrightarrow> length r < length cs"
proof (induction cs acc rule: parse_string.induct)
  case (1 acc)
  then show ?case by simp
next
  case (2 c cs acc)
  show ?case
  proof (cases "c = CHR ''\"''")
    case True
    with 2 show ?thesis by simp
  next
    case notq: False
    show ?thesis
    proof (cases "c = CHR 0x5C")
      case False
      with notq 2 show ?thesis by (auto split: if_splits)
    next
      case bs: True
      show ?thesis
      proof (cases cs)
        case Nil
        with bs notq 2 show ?thesis by simp
      next
        case (Cons e es)
        show ?thesis
        proof (cases "e = CHR ''u''")
          case False
          with Cons bs notq 2 show ?thesis by (force split: option.splits)
        next
          case True
          with Cons bs notq "2.prems" obtain h1 h2 h3 h4 r' a b c' d where
            es: "es = h1 # h2 # h3 # h4 # r'" and
            hv: "hex_val h1 = Some a" "hex_val h2 = Some b" "hex_val h3 = Some c'" "hex_val h4 = Some d" and
            rec: "parse_string r' (append_unit acc (4096 * a + 256 * b + 16 * c' + d)) = Some (s, r)"
            by (auto split: list.splits option.splits)
          from "2.IH"(1) [OF notq bs Cons True es refl refl refl refl hv(1) refl hv(2) refl hv(3) hv(4) rec]
          have "length r < length r'" by simp
          with es Cons show ?thesis by simp
        qed
      qed
    qed
  qed
qed


lemma length_skip_ws: "length (skip_ws cs) \<le> length cs"
  by (simp add: skip_ws_def length_dropWhile_le)

lemma skip_ws_Cons: "skip_ws cs = c # r \<Longrightarrow> length r < length cs"
  using length_skip_ws [of cs] by simp

lemma literal_shorter: "literal w v cs = Parsed x r \<Longrightarrow> w \<noteq> [] \<Longrightarrow> length r < length cs"
  by (cases cs) (auto simp: literal_def split: if_splits)


lemma span_digits_le: "length (snd (span_digits cs)) \<le> length cs"
  by (simp add: span_digits_def length_dropWhile_le)

lemma span_digits_less:
  "fst (span_digits cs) \<noteq> [] \<Longrightarrow> length (snd (span_digits cs)) < length cs"
  unfolding span_digits_def
  by (induction cs) (auto simp: le_imp_less_Suc length_dropWhile_le split: if_splits)

lemma parse_minus_le: "length (snd (parse_minus cs)) \<le> length cs"
  by (simp add: parse_minus_def split: list.splits)

lemma parse_exp_sign_le: "length (snd (parse_exp_sign cs)) \<le> length cs"
  by (simp add: parse_exp_sign_def split: list.splits)

lemma parse_frac_le: "parse_frac cs = Some (fp, r) \<Longrightarrow> length r \<le> length cs"
proof (cases cs)
  case Nil
  then show "parse_frac cs = Some (fp, r) \<Longrightarrow> length r \<le> length cs"
    by (simp add: parse_frac_def)
next
  case (Cons c t)
  assume a: "parse_frac cs = Some (fp, r)"
  show "length r \<le> length cs"
  proof (cases "c = CHR ''.''")
    case True
    with a Cons have "r = snd (span_digits t)"
      by (auto simp: parse_frac_def split: if_splits)
    then show ?thesis using span_digits_le [of t] Cons by simp
  next
    case False
    with a Cons show ?thesis by (simp add: parse_frac_def)
  qed
qed

lemma parse_exp_le: "parse_exp cs = Some (ex, r) \<Longrightarrow> length r \<le> length cs"
proof (cases cs)
  case Nil
  then show "parse_exp cs = Some (ex, r) \<Longrightarrow> length r \<le> length cs"
    by (simp add: parse_exp_def)
next
  case (Cons c t)
  assume a: "parse_exp cs = Some (ex, r)"
  show "length r \<le> length cs"
  proof (cases "c = CHR ''e'' \<or> c = CHR ''E''")
    case True
    with a Cons have "r = snd (span_digits (snd (parse_exp_sign t)))"
      by (auto simp: parse_exp_def Let_def split: if_splits)
    then show ?thesis
      using span_digits_le [of "snd (parse_exp_sign t)"] parse_exp_sign_le [of t] Cons by simp
  next
    case False
    with a Cons show ?thesis by (simp add: parse_exp_def)
  qed
qed

lemma parse_number_shorter:
  assumes "parse_number cs = Some (v, r)"
  shows "length r < length cs"
proof -
  let ?ip = "span_digits (snd (parse_minus cs))"
  from assms have ip: "fst ?ip \<noteq> []"
    by (auto simp: parse_number_def Let_def split: if_splits)
  from assms ip obtain fp cs3 ex where
    f: "parse_frac (snd ?ip) = Some (fp, cs3)" and e: "parse_exp cs3 = Some (ex, r)"
    by (auto simp: parse_number_def Let_def split: if_splits option.splits)
  have "length r \<le> length cs3" using e by (rule parse_exp_le)
  moreover have "length cs3 \<le> length (snd ?ip)" using f by (rule parse_frac_le)
  moreover have "length (snd ?ip) < length (snd (parse_minus cs))"
    using ip by (rule span_digits_less)
  moreover note parse_minus_le [of cs]
  ultimately show ?thesis by linarith
qed

lemma parse_scalar_fuel: "parse_scalar cs \<noteq> OutOfFuel"
proof (cases cs)
  case Nil
  then show ?thesis by (simp add: parse_scalar_def)
next
  case (Cons c t)
  then show ?thesis
    by (simp add: parse_scalar_def literal_def split: option.splits)
qed

lemma parse_scalar_shorter:
  assumes "parse_scalar cs = Parsed v r"
  shows "length r < length cs"
proof (cases cs)
  case Nil
  with assms show ?thesis by (simp add: parse_scalar_def)
next
  case (Cons c t)
  show ?thesis
  proof (cases "c = CHR ''\"''")
    case True
    with assms Cons obtain s where "parse_string t [] = Some (s, r)"
      by (auto simp: parse_scalar_def split: option.splits)
    then have "length r < length t" by (rule parse_string_shorter)
    with Cons show ?thesis by simp
  next
    case nq: False
    show ?thesis
    proof (cases "c = CHR ''-'' \<or> is_digit c")
      case True
      with assms Cons nq have "parse_number cs = Some (v, r)"
        by (auto simp: parse_scalar_def split: option.splits)
      then show ?thesis by (rule parse_number_shorter)
    next
      case False
      with assms Cons nq obtain w x where "literal w x cs = Parsed v r" "w \<noteq> []"
        by (auto simp: parse_scalar_def split: if_splits)
      then show ?thesis by (rule literal_shorter)
    qed
  qed
qed

lemma parse_fuel:
  "2 * length cs < n \<longrightarrow> parse_value n cs \<noteq> OutOfFuel
     \<and> (\<forall>v r. parse_value n cs = Parsed v r \<longrightarrow> length r < length cs)"
  "2 * length cs + 1 < n \<longrightarrow> parse_elements n cs acc \<noteq> OutOfFuel
     \<and> (\<forall>v r. parse_elements n cs acc = Parsed v r \<longrightarrow> length r < length cs)"
  "2 * length cs + 1 < n \<longrightarrow> parse_members n cs acc' \<noteq> OutOfFuel
     \<and> (\<forall>v r. parse_members n cs acc' = Parsed v r \<longrightarrow> length r < length cs)"
proof (induction n cs and n cs acc and n cs acc' rule: parse_value_parse_elements_parse_members.induct)
  case (1 cs)
  then show ?case by simp
next
  case (2 n cs)
  show ?case
  proof (intro impI)
    assume b: "2 * length cs < Suc n"
    show "parse_value (Suc n) cs \<noteq> OutOfFuel
     \<and> (\<forall>v r. parse_value (Suc n) cs = Parsed v r \<longrightarrow> length r < length cs)"
    proof (cases "skip_ws cs")
      case Nil
      then show ?thesis by simp
    next
      case c0: (Cons c r)
      have lr: "length r < length cs" using c0 by (rule skip_ws_Cons)
      have e: "2 * length r + 1 < n" using lr b by linarith
      show ?thesis
      proof (cases "c = CHR ''[''")
        case True
        show ?thesis
        proof (cases "skip_ws r")
          case Nil
          with c0 True show ?thesis by simp
        next
          case (Cons c' r')
          have lr': "length r' < length r" using Cons by (rule skip_ws_Cons)
          show ?thesis
          proof (cases "c' = CHR '']''")
            case True
            with c0 \<open>c = CHR ''[''\<close> Cons lr lr' show ?thesis by simp
          next
            case False
            have eq: "parse_value (Suc n) cs = parse_elements n r []"
              using c0 \<open>c = CHR ''[''\<close> Cons False by simp
            from "2.IH"(1) [OF c0 \<open>c = CHR ''[''\<close> Cons False] e lr
            show ?thesis unfolding eq by auto
          qed
        qed
      next
        case nb: False
        show ?thesis
        proof (cases "c = CHR ''{''")
          case True
          show ?thesis
          proof (cases "skip_ws r")
            case Nil
            with c0 nb True show ?thesis by simp
          next
            case (Cons c' r')
            have lr': "length r' < length r" using Cons by (rule skip_ws_Cons)
            show ?thesis
            proof (cases "c' = CHR ''}''")
              case True
              with c0 nb \<open>c = CHR ''{''\<close> Cons lr lr' show ?thesis by simp
            next
              case False
              have eq: "parse_value (Suc n) cs = parse_members n r []"
                using c0 nb \<open>c = CHR ''{''\<close> Cons False by simp
              from "2.IH"(2) [OF c0 nb \<open>c = CHR ''{''\<close> Cons False] e lr
              show ?thesis unfolding eq by auto
            qed
          qed
        next
          case nc: False
          have eq: "parse_value (Suc n) cs = parse_scalar (c # r)"
            using c0 nb nc by simp
          have "\<And>v r'. parse_scalar (c # r) = Parsed v r' \<Longrightarrow> length r' < length cs"
          proof -
            fix v r' assume "parse_scalar (c # r) = Parsed v r'"
            then have "length r' < length (c # r)" by (rule parse_scalar_shorter)
            moreover have "length (c # r) \<le> length cs"
              using length_skip_ws [of cs] c0 by simp
            ultimately show "length r' < length cs" by linarith
          qed
          then show ?thesis unfolding eq using parse_scalar_fuel by blast
        qed
      qed
    qed
  qed
next
  case (3 cs acc)
  then show ?case by simp
next
  case (4 n cs acc)
  show ?case
  proof (intro impI)
    assume b: "2 * length cs + 1 < Suc n"
    then have b': "2 * length cs < n" by simp
    show "parse_elements (Suc n) cs acc \<noteq> OutOfFuel
     \<and> (\<forall>v r. parse_elements (Suc n) cs acc = Parsed v r \<longrightarrow> length r < length cs)"
    proof (cases "parse_value n cs")
      case (Parsed x r)
      have lr: "length r < length cs" using "4.IH"(1) b' Parsed by simp
      show ?thesis
      proof (cases "skip_ws r")
        case Nil
        have "parse_elements (Suc n) cs acc = SyntaxError" using Parsed Nil by simp
        then show ?thesis by simp
      next
        case (Cons c r')
        have lr': "length r' < length r" using Cons by (rule skip_ws_Cons)
        show ?thesis
        proof (cases "c = CHR '',''")
          case True
          have eq: "parse_elements (Suc n) cs acc = parse_elements n r' (acc @ [x])"
            using Parsed Cons True by simp
          have "2 * length r' + 1 < n" using lr lr' b by linarith
          with "4.IH"(2) [OF Parsed Cons True] lr lr'
          show ?thesis unfolding eq by auto
        next
          case False
          show ?thesis
          proof (cases "c = CHR '']''")
            case True
            have "parse_elements (Suc n) cs acc = Parsed (JArr (acc @ [x])) r'"
              using Parsed Cons False True by simp
            then show ?thesis using lr lr' by simp
          next
            case nz: False
            have "parse_elements (Suc n) cs acc = SyntaxError"
              using Parsed Cons False nz by simp
            then show ?thesis by simp
          qed
        qed
      qed
    next
      case SyntaxError
      then have "parse_elements (Suc n) cs acc = SyntaxError" by simp
      then show ?thesis by simp
    next
      case OutOfFuel
      with "4.IH"(1) b' show ?thesis by simp
    qed
  qed
next
  case (5 cs acc)
  then show ?case by simp
next
  case (6 n cs acc)
  show ?case
  proof (intro impI)
    assume b: "2 * length cs + 1 < Suc n"
    let ?P = "parse_members (Suc n) cs acc"
    show "?P \<noteq> OutOfFuel \<and> (\<forall>v r. ?P = Parsed v r \<longrightarrow> length r < length cs)"
    proof (cases "skip_ws cs")
      case Nil
      then have "?P = SyntaxError" by simp
      then show ?thesis by simp
    next
      case c0: (Cons q r)
      have l0: "length r < length cs" using c0 by (rule skip_ws_Cons)
      show ?thesis
      proof (cases "q \<noteq> CHR ''\"''")
        case True
        with c0 have "?P = SyntaxError" by simp
        then show ?thesis by simp
      next
        case q: False
        show ?thesis
        proof (cases "parse_string r []")
          case None
          with c0 q have "?P = SyntaxError" by simp
          then show ?thesis by simp
        next
          case (Some kr)
          obtain k r1 where kr: "kr = (k, r1)" by (cases kr)
          have l1: "length r1 < length r" using Some kr parse_string_shorter by blast
          show ?thesis
          proof (cases "skip_ws r1")
            case Nil
            with c0 q Some kr have "?P = SyntaxError" by simp
            then show ?thesis by simp
          next
            case c2: (Cons c r2)
            have l2: "length r2 < length r1" using c2 by (rule skip_ws_Cons)
            show ?thesis
            proof (cases "c \<noteq> CHR '':''")
              case True
              with c0 q Some kr c2 have "?P = SyntaxError" by simp
              then show ?thesis by simp
            next
              case col: False
              have bv: "2 * length r2 < n" using b l0 l1 l2 by linarith
              note IHv = "6.IH"(1) [OF c0 q Some kr [symmetric] c2 col]
              show ?thesis
              proof (cases "parse_value n r2")
                case (Parsed v r3)
                have l3: "length r3 < length r2" using IHv bv Parsed by simp
                show ?thesis
                proof (cases "skip_ws r3")
                  case Nil
                  with c0 q Some kr c2 col Parsed have "?P = SyntaxError" by simp
                  then show ?thesis by simp
                next
                  case c4: (Cons d r4)
                  have l4: "length r4 < length r3" using c4 by (rule skip_ws_Cons)
                  show ?thesis
                  proof (cases "d = CHR '',''")
                    case True
                    have eq: "?P = parse_members n r4 (obj_set acc k v)"
                      using c0 q Some kr c2 col Parsed c4 True by simp
                    have "2 * length r4 + 1 < n" using b l0 l1 l2 l3 l4 by linarith
                    with "6.IH"(2) [OF c0 q Some kr [symmetric] c2 col Parsed c4 True]
                    have "parse_members n r4 (obj_set acc k v) \<noteq> OutOfFuel
                      \<and> (\<forall>v' r'. parse_members n r4 (obj_set acc k v) = Parsed v' r'
                            \<longrightarrow> length r' < length r4)"
                      by blast
                    then show ?thesis unfolding eq using l0 l1 l2 l3 l4 by fastforce
                  next
                    case nc: False
                    show ?thesis
                    proof (cases "d = CHR ''}''")
                      case True
                      have "?P = Parsed (JObj (obj_set acc k v)) r4"
                        using c0 q Some kr c2 col Parsed c4 nc True by simp
                      then show ?thesis using l0 l1 l2 l3 l4 by simp
                    next
                      case False
                      have "?P = SyntaxError"
                        using c0 q Some kr c2 col Parsed c4 nc False by simp
                      then show ?thesis by simp
                    qed
                  qed
                qed
              next
                case SyntaxError
                with c0 q Some kr c2 col have "?P = SyntaxError" by simp
                then show ?thesis by simp
              next
                case OutOfFuel
                with IHv bv show ?thesis by simp
              qed
            qed
          qed
        qed
      qed
    qed
  qed
qed

lemma JSON_parse_fuel: "parse_value (2 * length s + 2) s \<noteq> OutOfFuel"
  using parse_fuel(1) [of s "2 * length s + 2"] by simp

section \<open>Auth state\<close>


lemma JSON_parse_empty: "JSON_parse [] = None"
  by (simp add: JSON_parse_def skip_ws_def)

lemma AuthProvider_throws:
  "AuthProvider sto k = Inl (JsError ''TypeError'' ''init is not a function'')"
  by (simp add: AuthProvider_def useReducer_def)

lemma authReducer_inv:
  assumes "auth_inv st" and "action.type a = authTypes_login \<longrightarrow> payload a \<noteq> JNull"
  shows "auth_inv (authReducer (Some st) a)"
  using assms by (simp add: auth_inv_def authReducer_def initialAuthState_def)

lemma reduce_actions_inv:
  assumes "auth_inv st"
    and "\<forall>a \<in> set acts. action.type a = authTypes_login \<longrightarrow> payload a \<noteq> JNull"
  shows "auth_inv (reduce_actions st acts)"
  using assms unfolding reduce_actions_def
proof (induction acts arbitrary: st)
  case Nil
  then show ?case by simp
next
  case (Cons a acts)
  have "auth_inv (authReducer (Some st) a)"
    using Cons.prems by (intro authReducer_inv) auto
  then show ?case using Cons.IH Cons.prems(2) by simp
qed

lemma initializeAuthState_inv:
  assumes "\<forall>raw v. getItem sto k = Some raw \<and> raw \<noteq> [] \<and> JSON_parse raw = Some v
             \<longrightarrow> truthy v \<or> v = JNull"
  shows "auth_inv (initializeAuthState sto k)"
proof (cases "getItem sto k")
  case None
  then show ?thesis
    by (simp add: auth_inv_def initializeAuthState_def initializeAuthState_try_def
          initialAuthState_def)
next
  case (Some raw)
  show ?thesis
  proof (cases "raw = []")
    case True
    with Some show ?thesis
      by (simp add: auth_inv_def initializeAuthState_def initializeAuthState_try_def
            initialAuthState_def)
  next
    case False
    show ?thesis
    proof (cases "JSON_parse raw")
      case None
      with Some False show ?thesis
        by (simp add: auth_inv_def initializeAuthState_def initializeAuthState_try_def
              initialAuthState_def)
    next
      case (Some v)
      with assms \<open>getItem sto k = Some raw\<close> False have "truthy v \<or> v = JNull" by blast
      with Some \<open>getItem sto k = Some raw\<close> False show ?thesis
        by (cases v)
           (auto simp: auth_inv_def initializeAuthState_def initializeAuthState_try_def
              initialAuthState_def)
    qed
  qed
qed

text \<open>
  Claim C1, as amended. \<open>logged\<close> is true if and only if \<open>data\<close> is not \<open>null\<close> in the
  state that \<open>initializeAuthState\<close> returns, provided that the stored text, where it
  parses, parses to \<open>null\<close> or to a truthy value; and the reducer keeps this through
  every sequence of actions, from every state that has it, provided that no \<open>LOGIN\<close>
  action carries the payload \<open>null\<close>.
\<close>

theorem C1_auth_invariant:
  "((\<forall>raw v. getItem sto k = Some raw \<and> raw \<noteq> [] \<and> JSON_parse raw = Some v
        \<longrightarrow> truthy v \<or> v = JNull)
      \<longrightarrow> (logged (initializeAuthState sto k)
             \<longleftrightarrow> auth_state.data (initializeAuthState sto k) \<noteq> JNull))
   \<and> ((logged st \<longleftrightarrow> auth_state.data st \<noteq> JNull)
        \<and> (\<forall>a \<in> set acts. action.type a = authTypes_login \<longrightarrow> payload a \<noteq> JNull)
      \<longrightarrow> (logged (reduce_actions st acts)
             \<longleftrightarrow> auth_state.data (reduce_actions st acts) \<noteq> JNull))"
  using initializeAuthState_inv [of sto k] reduce_actions_inv [of st acts]
  unfolding auth_inv_def by blast

text \<open>
  An instance: a stored session; then, from the logged-out state, a logout, a login and
  an action of another type.
\<close>

lemma parse_id1: "JSON_parse ''{\"id\":1}'' = Some (JObj [(''id'', JNum 1 0)])"
  by code_simp

theorem C1_auth_invariant_witness:
  "logged (initializeAuthState [''auth'' \<mapsto> ''{\"id\":1}''] ''auth'')
   \<and> auth_state.data (initializeAuthState [''auth'' \<mapsto> ''{\"id\":1}''] ''auth'')
       = JObj [(''id'', JNum 1 0)]
   \<and> logged (reduce_actions initialAuthState
        [\<lparr>action.type = authTypes_logout, payload = JUndefined\<rparr>,
         \<lparr>action.type = authTypes_login, payload = JObj [(''id'', JNum 2 0)]\<rparr>,
         \<lparr>action.type = ''other'', payload = JNull\<rparr>])
   \<and> auth_state.data (reduce_actions initialAuthState
        [\<lparr>action.type = authTypes_logout, payload = JUndefined\<rparr>,
         \<lparr>action.type = authTypes_login, payload = JObj [(''id'', JNum 2 0)]\<rparr>,
         \<lparr>action.type = ''other'', payload = JNull\<rparr>]) = JObj [(''id'', JNum 2 0)]"
proof -
  let ?sto = "[''auth'' \<mapsto> ''{\"id\":1}'']"
  let ?acts = "[\<lparr>action.type = authTypes_logout, payload = JUndefined\<rparr>,
         \<lparr>action.type = authTypes_login, payload = JObj [(''id'', JNum 2 0)]\<rparr>,
         \<lparr>action.type = ''other'', payload = JNull\<rparr>]"
  have h1: "\<forall>raw v. getItem ?sto ''auth'' = Some raw \<and> raw \<noteq> [] \<and> JSON_parse raw = Some v
              \<longrightarrow> truthy v \<or> v = JNull"
    by (auto simp: getItem_def parse_id1)
  have h2: "(logged initialAuthState \<longleftrightarrow> auth_state.data initialAuthState \<noteq> JNull)
      \<and> (\<forall>a \<in> set ?acts. action.type a = authTypes_login \<longrightarrow> payload a \<noteq> JNull)"
    by (simp add: initialAuthState_def authTypes_login_def authTypes_logout_def)
  have d1: "auth_state.data (initializeAuthState ?sto ''auth'') = JObj [(''id'', JNum 1 0)]"
    by (simp add: initializeAuthState_def initializeAuthState_try_def getItem_def parse_id1
          initialAuthState_def)
  have d2: "auth_state.data (reduce_actions initialAuthState ?acts) = JObj [(''id'', JNum 2 0)]"
    by (simp add: reduce_actions_def authReducer_def initialAuthState_def
          authTypes_login_def authTypes_logout_def)
  from C1_auth_invariant [of ?sto "''auth''" initialAuthState ?acts] h1 h2 d1 d2
  show ?thesis by simp
qed

text \<open>
  Without the provisos the invariant fails. The stored text \<open>0\<close> gives
  \<open>logged = false\<close> with \<open>data = 0\<close>; and the reducer answers a \<open>LOGIN\<close> action with
  the payload \<open>null\<close>, from the logged-out state, by \<open>logged = true\<close> with
  \<open>data = null\<close>.
\<close>

lemma parse_zero: "JSON_parse ''0'' = Some (JNum 0 0)"
  by code_simp

theorem C1_auth_invariant_counterexample:
  "\<not> logged (initializeAuthState [''auth'' \<mapsto> ''0''] ''auth'')
   \<and> auth_state.data (initializeAuthState [''auth'' \<mapsto> ''0''] ''auth'') = JNum 0 0
   \<and> logged (authReducer (Some initialAuthState)
        \<lparr>action.type = authTypes_login, payload = JNull\<rparr>)
   \<and> auth_state.data (authReducer (Some initialAuthState)
        \<lparr>action.type = authTypes_login, payload = JNull\<rparr>) = JNull"
  by (simp add: initializeAuthState_def initializeAuthState_try_def getItem_def parse_zero
        authReducer_def initialAuthState_def authTypes_login_def)

lemma initializeAuthState_absent:
  "getItem sto k = None \<or> getItem sto k = Some [] \<Longrightarrow> initializeAuthState sto k = initialAuthState"
  by (auto simp: initializeAuthState_def initializeAuthState_try_def initialAuthState_def)

lemma initializeAuthState_try_throws:
  "getItem sto k = Some raw \<Longrightarrow> raw \<noteq> [] \<Longrightarrow> JSON_parse raw = None \<Longrightarrow>
     initializeAuthState_try sto k = None"
  by (simp add: initializeAuthState_try_def)

lemma initializeAuthState_parsed:
  assumes "getItem sto k = Some raw" and "JSON_parse raw = Some v"
  shows "initializeAuthState sto k = \<lparr>logged = truthy v, data = v\<rparr>"
proof -
  have "raw \<noteq> []" using assms(2) JSON_parse_empty by auto
  then show ?thesis
    using assms
    by (simp add: initializeAuthState_def initializeAuthState_try_def initialAuthState_def)
qed

text \<open>
  Claim C2, as amended. Initialising from the storage slot always returns a state. If the
  slot is absent, or its text is not JSON (then \<open>JSON.parse\<close> throws inside the \<open>try\<close>
  and the \<open>catch\<close> answers), the state is logged out: \<open>logged = false\<close>, \<open>data = null\<close>.
  If the text is JSON for a truthy value, the state is logged in with that value as
  \<open>data\<close>. If the text is JSON for \<open>null\<close>, the state is logged out.
\<close>

theorem C2_initializeAuthState:
  "(getItem sto k = None \<or> (\<exists>raw. getItem sto k = Some raw \<and> JSON_parse raw = None)
      \<longrightarrow> initializeAuthState sto k = \<lparr>logged = False, data = JNull\<rparr>)
   \<and> (\<forall>raw v. getItem sto k = Some raw \<and> JSON_parse raw = Some v \<and> truthy v
      \<longrightarrow> initializeAuthState sto k = \<lparr>logged = True, data = v\<rparr>)
   \<and> (\<forall>raw. getItem sto k = Some raw \<and> JSON_parse raw = Some JNull
      \<longrightarrow> initializeAuthState sto k = \<lparr>logged = False, data = JNull\<rparr>)
   \<and> (\<forall>raw. getItem sto k = Some raw \<and> raw \<noteq> [] \<and> JSON_parse raw = None
      \<longrightarrow> initializeAuthState_try sto k = None)"
proof (intro conjI impI allI)
  assume a: "getItem sto k = None \<or> (\<exists>raw. getItem sto k = Some raw \<and> JSON_parse raw = None)"
  show "initializeAuthState sto k = \<lparr>logged = False, data = JNull\<rparr>"
  proof (cases "getItem sto k")
    case None
    then show ?thesis
      using initializeAuthState_absent [of sto k] by (simp add: initialAuthState_def)
  next
    case (Some raw)
    with a have "JSON_parse raw = None" by auto
    with Some show ?thesis
      by (simp add: initializeAuthState_def initializeAuthState_try_def initialAuthState_def)
  qed
next
  fix raw v
  assume "getItem sto k = Some raw \<and> JSON_parse raw = Some v \<and> truthy v"
  then show "initializeAuthState sto k = \<lparr>logged = True, data = v\<rparr>"
    using initializeAuthState_parsed [of sto k raw v] by simp
next
  fix raw
  assume "getItem sto k = Some raw \<and> JSON_parse raw = Some JNull"
  then show "initializeAuthState sto k = \<lparr>logged = False, data = JNull\<rparr>"
    using initializeAuthState_parsed [of sto k raw JNull] by simp
next
  fix raw
  assume "getItem sto k = Some raw \<and> raw \<noteq> [] \<and> JSON_parse raw = None"
  then show "initializeAuthState_try sto k = None"
    using initializeAuthState_try_throws [of sto k raw] by simp
qed

text \<open>Instances: no slot, a slot that is not JSON, a slot holding a session.\<close>

lemma parse_null: "JSON_parse ''null'' = Some JNull"
  by code_simp

lemma parse_garbage: "JSON_parse ''{oops'' = None"
  by code_simp

theorem C2_initializeAuthState_witness:
  "initializeAuthState Map.empty ''auth'' = \<lparr>logged = False, data = JNull\<rparr>
   \<and> initializeAuthState [''auth'' \<mapsto> ''{oops''] ''auth'' = \<lparr>logged = False, data = JNull\<rparr>
   \<and> initializeAuthState [''auth'' \<mapsto> ''{\"id\":1}''] ''auth''
        = \<lparr>logged = True, data = JObj [(''id'', JNum 1 0)]\<rparr>"
proof -
  have a: "initializeAuthState Map.empty ''auth'' = \<lparr>logged = False, data = JNull\<rparr>"
    using C2_initializeAuthState [of Map.empty "''auth''"] by (simp add: getItem_def)
  have b: "initializeAuthState [''auth'' \<mapsto> ''{oops''] ''auth'' = \<lparr>logged = False, data = JNull\<rparr>"
    using C2_initializeAuthState [of "[''auth'' \<mapsto> ''{oops'']" "''auth''"] parse_garbage
    by (simp add: getItem_def)
  have c: "initializeAuthState [''auth'' \<mapsto> ''{\"id\":1}''] ''auth''
        = \<lparr>logged = True, data = JObj [(''id'', JNum 1 0)]\<rparr>"
    using C2_initializeAuthState [of "[''auth'' \<mapsto> ''{\"id\":1}'']" "''auth''"] parse_id1
    by (simp add: getItem_def)
  from a b c show ?thesis by simp
qed

text \<open>
  The text \<open>null\<close> is valid JSON, and the state initialised from it is not logged in.
\<close>

theorem C2_initializeAuthState_counterexample:
  "JSON_parse ''null'' = Some JNull
   \<and> initializeAuthState [''auth'' \<mapsto> ''null''] ''auth'' \<noteq> \<lparr>logged = True, data = JNull\<rparr>"
proof -
  have "initializeAuthState [''auth'' \<mapsto> ''null''] ''auth'' = \<lparr>logged = False, data = JNull\<rparr>"
    using initializeAuthState_parsed [of "[''auth'' \<mapsto> ''null'']" "''auth''" "''null''" JNull]
      parse_null
    by (simp add: getItem_def)
  then show ?thesis using parse_null by simp
qed





section \<open>Counter\<close>

declare bitlen.simps [simp del]

lemma bitlen_le: "bitlen n \<le> k \<longleftrightarrow> n < 2 ^ k"
proof (induction n arbitrary: k rule: bitlen.induct)
  case (1 n)
  show ?case
  proof (cases "n \<le> 0")
    case True
    have "(0::int) < 2 ^ k" by simp
    with True have "n < 2 ^ k" by linarith
    moreover have "bitlen n = 0" using True by (subst bitlen.simps) simp
    ultimately show ?thesis by simp
  next
    case False
    have b: "bitlen n = Suc (bitlen (n div 2))" using False by (subst bitlen.simps) simp
    show ?thesis
    proof (cases k)
      case 0
      with False b show ?thesis by simp
    next
      case (Suc j)
      have "bitlen (n div 2) \<le> j \<longleftrightarrow> n div 2 < 2 ^ j" using 1 False by simp
      moreover have "n div 2 < 2 ^ j \<longleftrightarrow> n < 2 ^ Suc j" by auto
      ultimately show ?thesis using Suc b by simp
    qed
  qed
qed

text \<open>An integer below \<open>2 ^ 53\<close> in magnitude is a double: nothing is rounded.\<close>

lemma round53_exact:
  assumes "\<bar>m\<bar> < 2 ^ 53"
  shows "round53 m 0 = Finite m 0"
proof -
  have l: "bitlen \<bar>m\<bar> \<le> 53" using assms by (simp only: bitlen_le)
  then have "\<not> 1024 < int (bitlen \<bar>m\<bar>) + 0" by simp
  with l show ?thesis by (auto simp: round53_def overflow_def Let_def)
qed

lemma js_add_int: "\<bar>c + a\<bar> < 2 ^ 53 \<Longrightarrow> js_add (Finite c 0) (Finite a 0) = Finite (c + a) 0"
proof -
  assume "\<bar>c + a\<bar> < 2 ^ 53"
  then have "round53 (c + a) 0 = Finite (c + a) 0" by (rule round53_exact)
  then show ?thesis by (simp add: Let_def)
qed

lemma js_sub_int: "\<bar>c - a\<bar> < 2 ^ 53 \<Longrightarrow> js_sub (Finite c 0) (Finite a 0) = Finite (c - a) 0"
  using js_add_int [of c "- a"] by (simp only: js_sub_def js_neg.simps add_uminus_conv_diff)

text \<open>
  Claim C4, as amended. For integers \<open>count\<close> and \<open>amount\<close> that are below \<open>2 ^ 53\<close> in
  magnitude together with their sum, \<open>increment(amount)\<close> and then, from the next
  render, \<open>decrement(amount)\<close> restore the count whenever \<open>count + amount\<close> is not
  zero. When it is zero, \<open>decrement\<close> returns early and the counter stays at zero.
\<close>

theorem C4_counter_roundtrip:
  assumes "\<bar>c\<bar> < 2 ^ 53" and "\<bar>a\<bar> < 2 ^ 53" and "\<bar>c + a\<bar> < 2 ^ 53"
  shows "(c + a \<noteq> 0 \<longrightarrow> roundtrip (Finite c 0) (Finite a 0) = Finite c 0)
       \<and> (c + a = 0 \<longrightarrow> roundtrip (Finite c 0) (Finite a 0) = Finite 0 0)"
proof -
  have i: "increment (Finite c 0) (Some (Finite a 0)) (Finite c 0) = Finite (c + a) 0"
    unfolding increment_def option.case using assms(3) by (rule js_add_int)
  have "\<bar>c + a - a\<bar> < 2 ^ 53" using assms(1) by simp
  then have "js_sub (Finite (c + a) 0) (Finite a 0) = Finite (c + a - a) 0"
    by (rule js_sub_int)
  then have s: "js_sub (Finite (c + a) 0) (Finite a 0) = Finite c 0" by simp
  show ?thesis unfolding roundtrip_def i by (simp add: decrement_def s)
qed

theorem C4_counter_roundtrip_witness:
  "roundtrip (Finite 5 0) (Finite 2 0) = Finite 5 0
   \<and> roundtrip (Finite (- 2) 0) (Finite 2 0) = Finite 0 0"
  using C4_counter_roundtrip [of 5 2] C4_counter_roundtrip [of "- 2" 2] by simp

text \<open>
  Four round trips that do not restore the count. From \<open>-1\<close>, \<open>increment(1)\<close> gives \<open>0\<close>
  and \<open>decrement(1)\<close> leaves it there. From \<open>2 ^ 53\<close>, \<open>increment(1)\<close> rounds back to
  \<open>2 ^ 53\<close> and \<open>decrement(1)\<close> gives \<open>2 ^ 53 - 1\<close>. From \<open>2\<close> with the amount \<open>0.3\<close>
  (the double \<open>5404319552844595 * 2 ^ - 54\<close>) the result is \<open>1.9999999999999998\<close>
  (the double \<open>9007199254740991 * 2 ^ - 52\<close>). From \<open>5\<close>, \<open>increment(2)\<close> and
  \<open>decrement(2)\<close> called in one render leave \<open>3\<close>: both compute from the \<open>5\<close> that
  render read.
\<close>

theorem C4_counter_roundtrip_counterexample:
  "roundtrip (Finite (- 1) 0) (Finite 1 0) = Finite 0 0
   \<and> roundtrip (Finite 1 53) (Finite 1 0) = Finite 9007199254740991 0
   \<and> roundtrip (Finite 2 0) (Finite 5404319552844595 (- 54)) = Finite 9007199254740991 (- 52)
   \<and> roundtrip_in_one_render (Finite 5 0) (Finite 2 0) = Finite 3 0"
  by code_simp

section \<open>Request executors\<close>

lemma useFetch_request_response:
  assumes "cleanup_at w \<noteq> DuringFetch" and "network w = Inr resp"
    and "\<not> (200 \<le> status resp \<and> status resp \<le> 299)"
  shows "fst (useFetch_request url opts m b w st)
           = st\<lparr>hasError := Some (''HTTP '' @ string_of_nat (status resp) @ '': '' @ statusText resp),
                 isLoading := False, controllerRef := Some \<lparr>aborted = False\<rparr>\<rparr>"
  using assms
  by (simp add: useFetch_request_def Let_def settle_def ok_def useFetch_catch_def)

lemma useApi_request_response:
  assumes "cleanup_at w \<noteq> DuringFetch" and "network w = Inr resp"
    and "\<not> (200 \<le> status resp \<and> status resp \<le> 299)"
  shows "fst (useApi_request url opts m b w st)
           = st\<lparr>hasError := Some (''HTTP '' @ string_of_nat (status resp) @ '': '' @ statusText resp),
                 isLoading := False, controllerRef := Some \<lparr>aborted = False\<rparr>\<rparr>"
  using assms
  by (simp add: useApi_request_def Let_def settle_def ok_def useApi_catch_def)

text \<open>
  Claim C3. For every prior state and every response received with a status outside
  200 to 299 (the request is not aborted while \<open>fetch\<close> is pending), after the call
  \<open>hasError\<close> is the text \<open>HTTP <status>: <statusText>\<close>, \<open>data\<close> is what it was before
  the call and \<open>isLoading\<close> is false; in \<open>useFetch\<close> and in \<open>useApi\<close>.
\<close>

theorem C3_non_2xx:
  assumes "cleanup_at w \<noteq> DuringFetch" and "network w = Inr resp"
    and "status resp < 200 \<or> 299 < status resp"
  shows "hasError (fst (useFetch_request url opts m b w st))
           = Some (''HTTP '' @ string_of_nat (status resp) @ '': '' @ statusText resp)
       \<and> request_state.data (fst (useFetch_request url opts m b w st)) = request_state.data st
       \<and> \<not> isLoading (fst (useFetch_request url opts m b w st))
       \<and> hasError (fst (useApi_request url opts m b w st))
           = Some (''HTTP '' @ string_of_nat (status resp) @ '': '' @ statusText resp)
       \<and> request_state.data (fst (useApi_request url opts m b w st)) = request_state.data st
       \<and> \<not> isLoading (fst (useApi_request url opts m b w st))"
proof -
  have n: "\<not> (200 \<le> status resp \<and> status resp \<le> 299)" using assms(3) by auto
  show ?thesis
    unfolding useFetch_request_response [OF assms(1,2) n] useApi_request_response [OF assms(1,2) n]
    by simp
qed

text \<open>A 404 response gives \<open>HTTP 404: Not Found\<close> and keeps the earlier data.\<close>

lemma string_of_404: "string_of_nat 404 = ''404''"
  by code_simp

theorem C3_non_2xx_witness:
  "hasError (fst (useFetch_request ''/api/users'' None ''GET'' JUndefined
      \<lparr>cleanup_at = NoCleanup,
       network = Inr \<lparr>status = 404, statusText = ''Not Found'', json = Inr JNull\<rparr>,
       abort_message = ''''\<rparr>
      (useFetch\<lparr>request_state.data := JStr ''old''\<rparr>))) = Some ''HTTP 404: Not Found''
   \<and> request_state.data (fst (useFetch_request ''/api/users'' None ''GET'' JUndefined
      \<lparr>cleanup_at = NoCleanup,
       network = Inr \<lparr>status = 404, statusText = ''Not Found'', json = Inr JNull\<rparr>,
       abort_message = ''''\<rparr>
      (useFetch\<lparr>request_state.data := JStr ''old''\<rparr>))) = JStr ''old''"
  using C3_non_2xx [of "\<lparr>cleanup_at = NoCleanup,
       network = Inr \<lparr>status = 404, statusText = ''Not Found'', json = Inr JNull\<rparr>,
       abort_message = ''''\<rparr>" "\<lparr>status = 404, statusText = ''Not Found'', json = Inr JNull\<rparr>"
       "''/api/users''" None "''GET''" JUndefined "useFetch\<lparr>request_state.data := JStr ''old''\<rparr>"]
    string_of_404
  by (simp add: useFetch_def)

text \<open>
  Claim C8. When the cleanup aborts the request before it completes (while \<open>fetch\<close> is
  pending, or while the body of a successful response is being read), whatever the
  network would have answered, \<open>hasError\<close> is \<open>null\<close> and \<open>isLoading\<close> is false after the
  call settles; in \<open>useFetch\<close> and in \<open>useApi\<close>.
\<close>

theorem C8_cancellation:
  "(cleanup_at w = DuringFetch
      \<or> (cleanup_at w = DuringJson \<and> (\<exists>resp. network w = Inr resp \<and> ok resp))
    \<longrightarrow> hasError (fst (useFetch_request url opts m b w st)) = None
        \<and> \<not> isLoading (fst (useFetch_request url opts m b w st))
        \<and> controllerRef (fst (useFetch_request url opts m b w st)) = Some \<lparr>aborted = True\<rparr>
        \<and> hasError (fst (useApi_request url opts m b w st)) = None
        \<and> \<not> isLoading (fst (useApi_request url opts m b w st))
        \<and> controllerRef (fst (useApi_request url opts m b w st)) = Some \<lparr>aborted = True\<rparr>)"
  by (auto simp: useFetch_request_def useApi_request_def Let_def settle_def
        useFetch_catch_def useApi_catch_def useFetch_cleanup_def useApi_cleanup_def)

theorem C8_cancellation_witness:
  "hasError (fst (useFetch_request ''/api/users'' None ''GET'' JUndefined
      \<lparr>cleanup_at = DuringFetch,
       network = Inr \<lparr>status = 200, statusText = ''OK'', json = Inr JNull\<rparr>,
       abort_message = ''The operation was aborted.''\<rparr> useFetch)) = None
   \<and> \<not> isLoading (fst (useFetch_request ''/api/users'' None ''GET'' JUndefined
      \<lparr>cleanup_at = DuringFetch,
       network = Inr \<lparr>status = 200, statusText = ''OK'', json = Inr JNull\<rparr>,
       abort_message = ''The operation was aborted.''\<rparr> useFetch))"
  using C8_cancellation [of "\<lparr>cleanup_at = DuringFetch,
       network = Inr \<lparr>status = 200, statusText = ''OK'', json = Inr JNull\<rparr>,
       abort_message = ''The operation was aborted.''\<rparr>" "''/api/users''" None "''GET''" JUndefined useFetch]
  by simp

text \<open>
  Claim C9. The two request executors are the same: their option defaults, their initial
  state, \<open>request\<close> (the state it leaves and the call of \<open>fetch\<close> it makes, for every
  url, options, method, body and outcome), the effect and its cleanup, and the five
  methods.
\<close>

theorem C9_useApi_useFetch:
  "useApi_headers = useFetch_headers
   \<and> useApi_autoFetch = useFetch_autoFetch
   \<and> useApi = useFetch
   \<and> useApi_request = useFetch_request
   \<and> useApi_effect = useFetch_effect
   \<and> useApi_cleanup = useFetch_cleanup
   \<and> useApi_get = useFetch_get
   \<and> useApi_post = useFetch_post
   \<and> useApi_put = useFetch_put
   \<and> useApi_patch = useFetch_patch
   \<and> useApi_remove = useFetch_remove"
proof -
  have h: "useApi_headers = useFetch_headers"
    by (rule ext) (simp add: useApi_headers_def useFetch_headers_def)
  have a: "useApi_autoFetch = useFetch_autoFetch"
    by (rule ext) (simp add: useApi_autoFetch_def useFetch_autoFetch_def)
  have i: "useApi = useFetch"
    by (simp add: useApi_def useFetch_def)
  have c: "useApi_cleanup = useFetch_cleanup"
    by (rule ext) (simp add: useApi_cleanup_def useFetch_cleanup_def)
  have e: "useApi_catch = useFetch_catch"
    by (intro ext) (simp add: useApi_catch_def useFetch_catch_def)
  have r: "useApi_request = useFetch_request"
    by (intro ext) (simp only: useApi_request_def useFetch_request_def h c e)
  have f: "useApi_effect = useFetch_effect"
    by (intro ext) (simp only: useApi_effect_def useFetch_effect_def a r)
  have "useApi_get = useFetch_get" "useApi_post = useFetch_post" "useApi_put = useFetch_put"
    "useApi_patch = useFetch_patch" "useApi_remove = useFetch_remove"
    by (intro ext, simp only: useApi_get_def useFetch_get_def useApi_post_def useFetch_post_def
          useApi_put_def useFetch_put_def useApi_patch_def useFetch_patch_def
          useApi_remove_def useFetch_remove_def r)+
  with h a i c r f show ?thesis by simp
qed

text \<open>
  Claim C10. When the options argument is omitted or does not set \<open>autoFetch\<close>,
  \<open>autoFetch\<close> is false and the effect issues no request on activation; the executor
  starts with \<open>data = null\<close>, \<open>hasError = null\<close>, \<open>isLoading = false\<close>; in \<open>useFetch\<close>
  and in \<open>useApi\<close>.
\<close>

theorem C10_autoFetch_default:
  "(opts = None \<or> (\<exists>o'. opts = Some o' \<and> autoFetch o' = None)
    \<longrightarrow> \<not> useFetch_autoFetch opts
        \<and> useFetch_effect url opts w useFetch = (useFetch, [])
        \<and> \<not> useApi_autoFetch opts
        \<and> useApi_effect url opts w useApi = (useApi, []))
   \<and> useFetch = \<lparr>data = JNull, hasError = None, isLoading = False, controllerRef = None\<rparr>
   \<and> useApi = \<lparr>data = JNull, hasError = None, isLoading = False, controllerRef = None\<rparr>"
  by (auto simp: useFetch_autoFetch_def useFetch_effect_def useApi_autoFetch_def
        useApi_effect_def useFetch_def useApi_def split: option.splits)

theorem C10_autoFetch_default_witness:
  "snd (useFetch_effect ''/api/users'' None
      \<lparr>cleanup_at = NoCleanup,
       network = Inr \<lparr>status = 200, statusText = ''OK'', json = Inr JNull\<rparr>,
       abort_message = ''''\<rparr> useFetch) = []
   \<and> snd (useFetch_effect ''/api/users'' (Some \<lparr>headers = Some [(''X-Id'', ''7'')], autoFetch = None\<rparr>)
      \<lparr>cleanup_at = NoCleanup,
       network = Inr \<lparr>status = 200, statusText = ''OK'', json = Inr JNull\<rparr>,
       abort_message = ''''\<rparr> useFetch) = []"
  using C10_autoFetch_default [of None "''/api/users''" "\<lparr>cleanup_at = NoCleanup,
       network = Inr \<lparr>status = 200, statusText = ''OK'', json = Inr JNull\<rparr>,
       abort_message = ''''\<rparr>"]
    C10_autoFetch_default [of "Some \<lparr>headers = Some [(''X-Id'', ''7'')], autoFetch = None\<rparr>"
       "''/api/users''" "\<lparr>cleanup_at = NoCleanup,
       network = Inr \<lparr>status = 200, statusText = ''OK'', json = Inr JNull\<rparr>,
       abort_message = ''''\<rparr>"]
  by simp

text \<open>With \<open>autoFetch: true\<close> the effect does issue a \<open>GET\<close>.\<close>

lemma autoFetch_true_issues_get:
  "fetch_method (hd (snd (useFetch_effect ''/api'' (Some \<lparr>headers = None, autoFetch = Some True\<rparr>)
      \<lparr>cleanup_at = NoCleanup,
       network = Inr \<lparr>status = 200, statusText = ''OK'', json = Inr (JNum 1 0)\<rparr>,
       abort_message = ''''\<rparr> useFetch))) = ''GET''"
  by (simp add: useFetch_effect_def useFetch_autoFetch_def useFetch_request_def Let_def)

section \<open>Form\<close>

lemmas form_defs =
  useForm_def render_def the_initialForm_def the_validateFn_def validation_effect_def
  initialForm_effect_def onInputChange_def onResetForm_def setFormState_def isValid_def
  required_name_def edit_name_def Let_def obj_set_def

text \<open>
  Claim C5 at a failing input. \<open>initialForm\<close> is the object \<open>{name: ''}\<close> and
  \<open>validateFn\<close> the function \<open>required_name\<close>, both the same in every render. The
  user types \<open>Ann\<close>, then the form is reset. Two renders follow the reset: in the first
  the validation effect sees that \<open>formState\<close> has changed and replaces the \<open>{}\<close> that
  \<open>onResetForm\<close> stored in \<open>errors\<close>. Once no render is pending, \<open>formState\<close> is the
  initial mapping, \<open>errors\<close> is \<open>{name: 'Name is required'}\<close> and \<open>isValid\<close> is false.
\<close>

theorem C5_reset_failing_input:
  "\<exists>h. form_run 2 (Stable 0 [(''name'', JStr '''')]) (Stable 1 required_name)
          (useForm (Stable 0 [(''name'', JStr '''')]) (Stable 1 required_name))
          [InputChange (edit_name ''Ann''), ResetForm] = Some h
     \<and> contents (formState h) = [(''name'', JStr '''')]
     \<and> contents (errors h) = [(''name'', ''Name is required'')]
     \<and> \<not> isValid h"
  by (simp add: numeral_2_eq_2 form_defs)

text \<open>
  With an argument that is a new object in every render, every render sets
  \<open>formState\<close> to the new \<open>initialForm\<close> and schedules the next render.
\<close>

lemma render_unstable:
  assumes "\<forall>k v. ia \<noteq> Stable k v" and "wf_hook h"
  shows "pending (render ia va h)" and "wf_hook (render ia va h)"
    and "contents (formState (render ia va h)) = (case ia of Inline v \<Rightarrow> v | _ \<Rightarrow> [])"
  using assms
  by (cases ia; cases va;
      auto simp: render_def the_initialForm_def the_validateFn_def validation_effect_def
        initialForm_effect_def Let_def wf_hook_def fresh_below_def split: ident.splits)+

lemma rerender_unstable:
  assumes "\<forall>k v. ia \<noteq> Stable k v" and "wf_hook h" and "pending h"
  shows "rerender n ia va h = None"
  using assms(2,3)
proof (induction n arbitrary: h)
  case 0
  then show ?case by simp
next
  case (Suc n)
  have "rerender n ia va (render ia va h) = None"
    using Suc.IH render_unstable(1,2) [OF assms(1) Suc.prems(1)] by blast
  with Suc.prems show ?case by simp
qed

lemma wf_funpow:
  assumes "\<forall>k v. ia \<noteq> Stable k v" and "wf_hook h"
  shows "wf_hook ((render ia va ^^ k) h)"
  using assms by (induction k) (simp_all add: render_unstable(2))

lemma wf_useForm: "wf_hook (useForm ia va)"
  by (cases ia; cases va)
     (simp_all add: wf_hook_def fresh_below_def useForm_def the_initialForm_def
        the_validateFn_def validation_effect_def initialForm_effect_def Let_def
        split: ident.splits)

lemma wf_onInputChange: "wf_hook h \<Longrightarrow> wf_hook (onInputChange t h)"
  by (auto simp: wf_hook_def fresh_below_def onInputChange_def split: ident.splits)

lemma pending_onInputChange: "pending (onInputChange t h)"
  by (simp add: onInputChange_def)

text \<open>
  Claim C6 at two failing inputs. First a call written as in the README,
  \<open>useForm({name: ''}, f => ...)\<close>, with the object literal and the function expression
  written in the call. The renders that follow the first one never come to an end;
  neither do those that follow an edit, after any number of renders; and the render
  after the edit sets \<open>formState\<close> back to the initial mapping. Second, with both
  arguments the same in every render, the reset of a form nobody has edited: no render
  is pending after two, \<open>errors\<close> is empty and \<open>isValid\<close> is true, while the validation
  function gives \<open>{name: 'Name is required'}\<close> on \<open>formState\<close>.
\<close>

theorem C6_validation_failing_input:
  "(\<forall>n. rerender n (Inline [(''name'', JStr '''')]) (Inline required_name)
            (useForm (Inline [(''name'', JStr '''')]) (Inline required_name)) = None)
   \<and> (\<forall>k n. rerender n (Inline [(''name'', JStr '''')]) (Inline required_name)
            (onInputChange (edit_name ''Ann'')
               ((render (Inline [(''name'', JStr '''')]) (Inline required_name) ^^ k)
                  (useForm (Inline [(''name'', JStr '''')]) (Inline required_name)))) = None)
   \<and> (\<forall>k. contents (formState (render (Inline [(''name'', JStr '''')]) (Inline required_name)
            (onInputChange (edit_name ''Ann'')
               ((render (Inline [(''name'', JStr '''')]) (Inline required_name) ^^ k)
                  (useForm (Inline [(''name'', JStr '''')]) (Inline required_name))))))
          = [(''name'', JStr '''')])
   \<and> (\<exists>h. form_run 2 (Stable 0 [(''name'', JStr '''')]) (Stable 1 required_name)
            (useForm (Stable 0 [(''name'', JStr '''')]) (Stable 1 required_name)) [ResetForm] = Some h
        \<and> contents (errors h) = [] \<and> isValid h
        \<and> required_name (contents (formState h)) = Some [(''name'', ''Name is required'')])"
proof -
  let ?ia = "Inline [(''name'', JStr '''')] :: form arg"
  let ?va = "Inline required_name :: validateFn arg"
  have u: "\<forall>k v. ?ia \<noteq> Stable k v" by simp
  have p: "pending (useForm ?ia ?va)"
    by (simp add: useForm_def the_initialForm_def the_validateFn_def validation_effect_def
          initialForm_effect_def Let_def)
  have m: "\<forall>n. rerender n ?ia ?va (useForm ?ia ?va) = None"
    using rerender_unstable [OF u wf_useForm p] by blast
  have w: "\<And>k. wf_hook (onInputChange (edit_name ''Ann'') ((render ?ia ?va ^^ k) (useForm ?ia ?va)))"
    by (intro wf_onInputChange wf_funpow u wf_useForm)
  have a: "\<forall>k n. rerender n ?ia ?va
            (onInputChange (edit_name ''Ann'') ((render ?ia ?va ^^ k) (useForm ?ia ?va))) = None"
    using rerender_unstable [OF u w pending_onInputChange] by blast
  have b: "\<forall>k. contents (formState (render ?ia ?va
            (onInputChange (edit_name ''Ann'') ((render ?ia ?va ^^ k) (useForm ?ia ?va)))))
          = [(''name'', JStr '''')]"
    using render_unstable(3) [OF u w] by simp
  have c: "\<exists>h. form_run 2 (Stable 0 [(''name'', JStr '''')]) (Stable 1 required_name)
            (useForm (Stable 0 [(''name'', JStr '''')]) (Stable 1 required_name)) [ResetForm] = Some h
        \<and> contents (errors h) = [] \<and> isValid h
        \<and> required_name (contents (formState h)) = Some [(''name'', ''Name is required'')]"
    by (simp add: numeral_2_eq_2 form_defs)
  from m a b c show ?thesis by blast
qed

end
